theory Spec2Isabelle
  imports Main "HOL-Library.Multiset"
begin

section \<open>Identity codec\<close>

text \<open>
  JavaScript values that are either a string or \<open>undefined\<close> are modelled as
  \<open>string option\<close>, with \<open>None\<close> for \<open>undefined\<close>.  The interface
  \<open>PlaylistDeviceId\<close> declares both fields as strings, but
  \<open>externalIdToPlaylistDeviceId\<close> fills them with array reads that yield
  \<open>undefined\<close> out of range, so both fields carry the option.  Strings are lists
  of characters; where a string is cut depends only on the positions of \<open>|\<close>.
\<close>

record PlaylistDeviceId =
  deviceId :: "string option"
  playlistUri :: "string option"

text \<open>
  \<open>String.prototype.split\<close> with a one-character separator: the string is cut at
  every occurrence of the separator; a string without the separator (the empty string
  included) gives the one-element array holding the string itself.
\<close>

function split :: "char \<Rightarrow> string \<Rightarrow> string list" where
  "split d s =
     (if d \<in> set s
      then takeWhile (\<lambda>c. c \<noteq> d) s # split d (tl (dropWhile (\<lambda>c. c \<noteq> d) s))
      else [s])"
  by pat_completeness auto
termination
proof (relation "measure (\<lambda>(d, s). length s)")
  show "wf (measure (\<lambda>(d, s). length s))" by simp
next
  fix d :: char and s :: string
  assume "d \<in> set s"
  then have "dropWhile (\<lambda>c. c \<noteq> d) s \<noteq> []" by (simp add: dropWhile_eq_Nil_conv)
  then have "length (tl (dropWhile (\<lambda>c. c \<noteq> d) s)) < length (dropWhile (\<lambda>c. c \<noteq> d) s)"
    by (cases "dropWhile (\<lambda>c. c \<noteq> d) s") simp_all
  also have "\<dots> \<le> length s" by (rule length_dropWhile_le)
  finally show "((d, tl (dropWhile (\<lambda>c. c \<noteq> d) s)), (d, s)) \<in> measure (\<lambda>(d, s). length s)"
    by simp
qed

declare split.simps [simp del]

text \<open>
  The second argument of \<open>split\<close> is a limit on the length of the resulting array:
  the array of all pieces is truncated to its first \<open>limit\<close> entries.
\<close>

definition split_limit :: "char \<Rightarrow> nat \<Rightarrow> string \<Rightarrow> string list" where
  "split_limit d limit s = take limit (split d s)"

text \<open>Array read \<open>a[i]\<close>: \<open>undefined\<close> when the index is out of range.\<close>

definition index :: "'a list \<Rightarrow> nat \<Rightarrow> 'a option" where
  "index a i = (if i < length a then Some (a ! i) else None)"

definition externalIdToPlaylistDeviceId :: "string \<Rightarrow> PlaylistDeviceId" where
  "externalIdToPlaylistDeviceId externalId =
     (let split = split_limit (CHR ''|'') 2 externalId
      in \<lparr> deviceId = index split 0, playlistUri = index split 1 \<rparr>)"

text \<open>Interpolation of a value into a template literal: \<open>undefined\<close> prints as such.\<close>

definition interpolate :: "string option \<Rightarrow> string" where
  "interpolate v = (case v of None \<Rightarrow> ''undefined'' | Some s \<Rightarrow> s)"

definition playlistDeviceIdToExternalId :: "PlaylistDeviceId \<Rightarrow> string" where
  "playlistDeviceIdToExternalId playlistDeviceId =
     interpolate (deviceId playlistDeviceId) @ ''|'' @ interpolate (playlistUri playlistDeviceId)"


section \<open>The provider\<close>

text \<open>
  The Spotify client is an external collaborator.  It is modelled by what its calls
  answer during one invocation: a read call either fails or returns its body, and a
  playback action either fails or succeeds, as a function of its arguments.  A failed
  call is a rejected promise, which \<open>await\<close> turns into a thrown exception.
\<close>

datatype error = Error string

text \<open>
  A device as \<open>getMyDevices\<close> reports it; its id is a string or \<open>null\<close>
  (\<open>None\<close>).  A playlist as \<open>getUserPlaylists\<close> reports it.  The playback
  snapshot's flag is absent (\<open>None\<close>) when the provider reports no playback.
\<close>

record SpotifyDevice =
  dev_id :: "string option"
  dev_name :: string
  dev_type :: string

record Playlist =
  pl_uri :: string
  pl_name :: string

record PlaybackState =
  is_playing :: "bool option"

record SpotifyWebApi =
  getMyDevices :: "error + SpotifyDevice list"
  getUserPlaylists :: "error + Playlist list"
  getMyCurrentPlaybackState :: "error + PlaybackState"
  play :: "string option \<Rightarrow> string option \<Rightarrow> error + unit"
  pause :: "string option \<Rightarrow> error + unit"
  skipToNext :: "error + unit"
  skipToPrevious :: "error + unit"

text \<open>
  The playback actions a handler can issue; \<open>Play\<close> carries \<open>context_uri\<close> and
  \<open>device_id\<close>, \<open>Pause\<close> carries \<open>device_id\<close>.
\<close>

datatype call =
  Play (context_uri: "string option") (device_id: "string option")
| Pause "string option"
| SkipToNext
| SkipToPrevious

definition perform :: "SpotifyWebApi \<Rightarrow> call \<Rightarrow> error + unit" where
  "perform spotify c =
     (case c of
        Play ctx dev \<Rightarrow> play spotify ctx dev
      | Pause dev \<Rightarrow> pause spotify dev
      | SkipToNext \<Rightarrow> skipToNext spotify
      | SkipToPrevious \<Rightarrow> skipToPrevious spotify)"

section \<open>Device enumerator\<close>

record PlaylistDevice =
  pd_id :: PlaylistDeviceId
  pd_name :: string
  pd_model :: string

text \<open>The test \<open>!!v\<close> on a string or \<open>null\<close>: false for \<open>null\<close> and for the empty string.\<close>

definition truthy :: "string option \<Rightarrow> bool" where
  "truthy v = (case v of None \<Rightarrow> False | Some s \<Rightarrow> s \<noteq> [])"

definition selected :: "SpotifyDevice list \<Rightarrow> SpotifyDevice list" where
  "selected spotifyDevices =
     filter (\<lambda>spotifyDevice. dev_name spotifyDevice = ''Mobile Web Player'')
       (filter (\<lambda>spotifyDevice. truthy (dev_id spotifyDevice)) spotifyDevices)"

text \<open>
  The record pushed for one device and one playlist.  In the template of the name the
  character between \<open>on\<close> and the device name is a no-break space (U+00A0), one code
  unit of the string, written \<open>CHR 0xA0\<close>; the one before \<open>on\<close> is an ordinary
  space.
\<close>

definition playlistDevice :: "SpotifyDevice \<Rightarrow> Playlist \<Rightarrow> PlaylistDevice" where
  "playlistDevice spotifyDevice playlist =
     \<lparr> pd_id = \<lparr> deviceId = dev_id spotifyDevice, playlistUri = Some (pl_uri playlist) \<rparr>,
       pd_name = ''Playlist '' @ pl_name playlist @ '' on'' @ [CHR 0xA0] @ dev_name spotifyDevice,
       pd_model = dev_type spotifyDevice \<rparr>"

text \<open>
  The two nested \<open>forEach\<close> loops push onto \<open>result\<close>: devices outer, playlists
  inner.  A failing read call propagates, the device list first.
\<close>

definition getPlaylistDevices :: "SpotifyWebApi \<Rightarrow> error + PlaylistDevice list" where
  "getPlaylistDevices spotify =
     (case getMyDevices spotify of
        Inl e \<Rightarrow> Inl e
      | Inr spotifyDevices \<Rightarrow>
          (case getUserPlaylists spotify of
             Inl e \<Rightarrow> Inl e
           | Inr playlists \<Rightarrow>
               Inr (foldl (\<lambda>result spotifyDevice.
                      foldl (\<lambda>result playlist. result @ [playlistDevice spotifyDevice playlist])
                        result playlists)
                    [] (selected spotifyDevices))))"

section \<open>Discovery and state refresh\<close>

text \<open>
  Modelled from the spec: the response objects of the platform SDK are not part of the
  repository.  Per the spec the outbound body is built incrementally by \<open>addDevice\<close>
  calls; a discovery response is modelled as the list of announcements in the order of
  the calls, each with external id, display name, profile id, manufacturer and model.
\<close>

record DiscoveryDevice =
  dd_externalDeviceId :: string
  dd_friendlyName :: string
  dd_deviceHandlerType :: string
  dd_manufacturerName :: "string option"
  dd_modelName :: "string option"

definition addDiscoveryDevice :: "string \<Rightarrow> string \<Rightarrow> string \<Rightarrow> DiscoveryDevice" where
  "addDiscoveryDevice i n profile =
     \<lparr> dd_externalDeviceId = i, dd_friendlyName = n, dd_deviceHandlerType = profile,
       dd_manufacturerName = None, dd_modelName = None \<rparr>"

text \<open>
  The handlers build their client from the token of the request; the model takes the
  client, and the response to fill, and returns the response filled or the failure.
\<close>

definition discoveryRequest ::
    "SpotifyWebApi \<Rightarrow> DiscoveryDevice list \<Rightarrow> error + DiscoveryDevice list" where
  "discoveryRequest spotify response =
     (case getPlaylistDevices spotify of
        Inl e \<Rightarrow> Inl e
      | Inr playlistDevices \<Rightarrow>
          Inr (foldl (\<lambda>response playlistDevice.
                 let i = playlistDeviceIdToExternalId (pd_id playlistDevice)
                 in response @
                    [(addDiscoveryDevice i (pd_name playlistDevice)
                        ''0284c595-fed5-4b00-9e02-6e85bb3b32fb'')
                       \<lparr> dd_manufacturerName := Some ''Spotify'',
                         dd_modelName := Some (pd_model playlistDevice) \<rparr>])
               response playlistDevices))"

datatype jsvalue = Str string | StrArray "string list"

record State =
  st_component :: string
  st_capability :: string
  st_attribute :: string
  st_value :: jsvalue

text \<open>
  Modelled from the spec: a state-refresh response is the list of the
  \<open>addDevice(id, states)\<close> calls, each an external id with its state tuples.
\<close>

record StateDevice =
  sd_externalDeviceId :: string
  sd_states :: "State list"

definition stateRefreshRequest ::
    "SpotifyWebApi \<Rightarrow> StateDevice list \<Rightarrow> error + StateDevice list" where
  "stateRefreshRequest spotify response =
     (case getPlaylistDevices spotify of
        Inl e \<Rightarrow> Inl e
      | Inr playlistDevices \<Rightarrow>
          (case getMyCurrentPlaybackState spotify of
             Inl e \<Rightarrow> Inl e
           | Inr playbackState \<Rightarrow>
               Inr (foldl (\<lambda>response playlistDevice.
                      let i = playlistDeviceIdToExternalId (pd_id playlistDevice)
                      in response @
                         [\<lparr> sd_externalDeviceId = i,
                            sd_states =
                              [\<lparr> st_component = ''main'',
                                 st_capability = ''st.mediaPlayback'',
                                 st_attribute = ''supportedPlaybackCommands'',
                                 st_value = StrArray [''pause'', ''play'', ''fastForward'', ''rewind''] \<rparr>,
                               \<lparr> st_component = ''main'',
                                 st_capability = ''st.mediaPlayback'',
                                 st_attribute = ''playbackStatus'',
                                 st_value = Str (if is_playing playbackState = Some True
                                                 then ''playing'' else ''paused'') \<rparr>] \<rparr>])
                    response playlistDevices)))"

section \<open>Command handler\<close>

record Command =
  capability :: string
  command :: string

record DeviceRequest =
  externalDeviceId :: string
  commands :: "Command list"

text \<open>
  Modelled from the spec: the command response of the platform SDK is not part of the
  repository.  It is modelled as a store of device entries: \<open>addDevice\<close> appends an
  entry and returns its handle, \<open>addComponent\<close> appends a named component to an
  entry and returns the component's handle, and \<open>addState\<close> appends a
  (capability, attribute, value) tuple to a component.
\<close>

type_synonym AttributeState = "string \<times> string \<times> string"

record Component =
  comp_name :: string
  comp_states :: "AttributeState list"

record CommandDevice =
  cd_externalDeviceId :: string
  cd_components :: "Component list"

type_synonym component_handle = "nat \<times> nat"

definition addDevice :: "CommandDevice list \<Rightarrow> string \<Rightarrow> CommandDevice list \<times> nat" where
  "addDevice response externalId =
     (response @ [\<lparr> cd_externalDeviceId = externalId, cd_components = [] \<rparr>], length response)"

definition addComponent ::
    "CommandDevice list \<Rightarrow> nat \<Rightarrow> string \<Rightarrow> CommandDevice list \<times> component_handle" where
  "addComponent response device n =
     (response[device := (response ! device)
         \<lparr> cd_components := cd_components (response ! device)
                              @ [\<lparr> comp_name = n, comp_states = [] \<rparr>] \<rparr>],
      (device, length (cd_components (response ! device))))"

definition addState ::
    "component_handle \<Rightarrow> CommandDevice list \<Rightarrow> AttributeState \<Rightarrow> CommandDevice list" where
  "addState component response s =
     (case component of (device, i) \<Rightarrow>
        response[device := (response ! device)
          \<lparr> cd_components := (cd_components (response ! device))
               [i := (cd_components (response ! device) ! i)
                  \<lparr> comp_states := comp_states (cd_components (response ! device) ! i) @ [s] \<rparr>] \<rparr>])"

definition statesAt :: "CommandDevice list \<Rightarrow> component_handle \<Rightarrow> AttributeState list" where
  "statesAt response component =
     (case component of (device, i) \<Rightarrow> comp_states (cd_components (response ! device) ! i))"

text \<open>
  The body of the asynchronous function run for one command.  It either returns without
  waiting (\<open>Return\<close>), or issues one provider call and waits for it (\<open>Await\<close>); what
  it does once the call has settled is the continuation, which either throws
  (\<open>Inl\<close>) or writes lines to the console and adds states to the component of its
  device (\<open>Inr\<close>).  A failed \<open>play\<close> is thrown on; a failed \<open>pause\<close>,
  \<open>skipToNext\<close> or \<open>skipToPrevious\<close> is caught and logged.
\<close>

type_synonym continuation = "error + unit \<Rightarrow> error + string list \<times> AttributeState list"

datatype body = Return | Await call continuation

definition commandBody :: "PlaylistDeviceId \<Rightarrow> Command \<Rightarrow> body" where
  "commandBody playlistDeviceId c =
     (if capability c = ''st.mediaPlayback'' then
        (if command c = ''play'' then
           Await (Play (playlistUri playlistDeviceId) (deviceId playlistDeviceId))
             (\<lambda>r. case r of
                     Inl e \<Rightarrow> Inl e
                   | Inr _ \<Rightarrow> Inr ([], [(capability c, ''playbackStatus'', ''playing'')]))
         else if command c = ''pause'' then
           Await (Pause (deviceId playlistDeviceId))
             (\<lambda>r. Inr (case r of Inl e \<Rightarrow> [''Spotify pause failed''] | Inr _ \<Rightarrow> [],
                        [(capability c, ''playbackStatus'', ''paused'')]))
         else if command c = ''fastForward'' then
           Await SkipToNext
             (\<lambda>r. Inr (case r of Inl e \<Rightarrow> [''Spotify next failed''] | Inr _ \<Rightarrow> [],
                        [(capability c, ''playbackStatus'', ''playing'')]))
         else if command c = ''rewind'' then
           Await SkipToPrevious
             (\<lambda>r. Inr (case r of Inl e \<Rightarrow> [''Spotify prev failed''] | Inr _ \<Rightarrow> [],
                        [(capability c, ''playbackStatus'', ''playing'')]))
         else Return)
      else Return)"

text \<open>
  The state of one run of the handler: the provider calls issued so far, in order, the
  response store, and the console.
\<close>

record Run =
  calls :: "call list"
  response :: "CommandDevice list"
  console :: "string list"

type_synonym pending = "component_handle \<times> call \<times> continuation"

text \<open>
  The synchronous part.  \<open>map\<close> starts the asynchronous function of every device
  request, and inside it that of every command, each running up to its \<open>await\<close>:
  all entries and components are added and all provider calls are issued, in request
  order, before any call settles.
\<close>

definition startCommand ::
    "PlaylistDeviceId \<Rightarrow> component_handle \<Rightarrow> call list \<times> pending list \<Rightarrow> Command
       \<Rightarrow> call list \<times> pending list" where
  "startCommand playlistDeviceId component acc c =
     (case commandBody playlistDeviceId c of
        Return \<Rightarrow> acc
      | Await a k \<Rightarrow> (fst acc @ [a], snd acc @ [(component, a, k)]))"

definition startDevice :: "Run \<times> pending list \<Rightarrow> DeviceRequest \<Rightarrow> Run \<times> pending list" where
  "startDevice acc deviceRequest =
     (let externalId = externalDeviceId deviceRequest;
          (response1, device) = addDevice (response (fst acc)) externalId;
          (response2, component) = addComponent response1 device ''main'';
          playlistDeviceId = externalIdToPlaylistDeviceId externalId;
          (calls', pend') = foldl (startCommand playlistDeviceId component)
                              (calls (fst acc), snd acc) (commands deviceRequest)
      in ((fst acc) \<lparr> calls := calls', response := response2 \<rparr>, pend'))"

text \<open>
  The asynchronous part.  The pending calls settle in an order of the provider's own:
  \<open>pick n\<close> chooses, among the calls still pending at step \<open>n\<close>, the one that settles
  next.  A continuation that throws rejects the \<open>Promise.all\<close> it belongs to, and
  through it the handler, at once (\<open>Some e\<close>, with the run as it is then); when nothing
  is pending the handler resolves (\<open>None\<close>).
\<close>

function settle ::
    "SpotifyWebApi \<Rightarrow> (nat \<Rightarrow> nat) \<Rightarrow> nat \<Rightarrow> pending list \<Rightarrow> Run \<Rightarrow> error option \<times> Run" where
  "settle spotify pick n pend run =
     (if pend = [] then (None, run)
      else
        (let j = pick n mod length pend;
             rest = take j pend @ drop (Suc j) pend
         in case pend ! j of (component, a, k) \<Rightarrow>
              (case k (perform spotify a) of
                 Inl e \<Rightarrow> (Some e, run)
               | Inr (lines, sts) \<Rightarrow>
                   settle spotify pick (Suc n) rest
                     (run \<lparr> response := foldl (addState component) (response run) sts,
                            console := console run @ lines \<rparr>))))"
  by pat_completeness auto
termination
proof (relation "measure (\<lambda>(spotify, pick, n, pend, run). length pend)")
  show "wf (measure (\<lambda>(spotify, pick, n, pend, run). length pend))" by simp
next
  fix spotify :: SpotifyWebApi and pick :: "nat \<Rightarrow> nat" and n :: nat
    and pend :: "pending list" and run :: Run and j :: nat and rest :: "pending list"
  assume "pend \<noteq> []" and j: "j = pick n mod length pend"
    and rest: "rest = take j pend @ drop (Suc j) pend"
  then have "j < length pend" by simp
  with rest have "length rest < length pend" by simp
  then show "((spotify, pick, Suc n, rest, run'), (spotify, pick, n, pend, run))
               \<in> measure (\<lambda>(spotify, pick, n, pend, run). length pend)" for run'
    by simp
qed

declare settle.simps [simp del]

definition commandRequest ::
    "SpotifyWebApi \<Rightarrow> (nat \<Rightarrow> nat) \<Rightarrow> DeviceRequest list \<Rightarrow> CommandDevice list
       \<Rightarrow> error option \<times> Run" where
  "commandRequest spotify pick devices response0 =
     (case foldl startDevice (\<lparr> calls = [], response = response0, console = [] \<rparr>, []) devices of
        (run, pend) \<Rightarrow> settle spotify pick 0 pend run)"

section \<open>Request dispatcher\<close>

text \<open>
  Modelled from the spec: the wrapper \<open>lambda\<close> of the platform SDK is not part of the
  repository.  Per the spec it is a stateless router: the declared intent, one of
  \<open>discoveryRequest\<close>, \<open>stateRefreshRequest\<close> and \<open>commandRequest\<close>, selects the
  handler, which is given a new response; on completion the handler's response is
  passed to \<open>succeed\<close>, on any uncaught failure the error payload is passed to
  \<open>fail\<close>.
\<close>

datatype interaction = DiscoveryRequest | StateRefreshRequest | CommandRequest

record Request =
  interactionType :: interaction
  devices :: "DeviceRequest list"

datatype payload =
  DiscoveryResponse "DiscoveryDevice list"
| StateRefreshResponse "StateDevice list"
| CommandResponse "CommandDevice list"
| ErrorResponse error

datatype outcome = Succeed payload | Fail payload

definition lambda :: "SpotifyWebApi \<Rightarrow> (nat \<Rightarrow> nat) \<Rightarrow> Request \<Rightarrow> outcome" where
  "lambda spotify pick request =
     (case interactionType request of
        DiscoveryRequest \<Rightarrow>
          (case discoveryRequest spotify [] of
             Inl e \<Rightarrow> Fail (ErrorResponse e)
           | Inr r \<Rightarrow> Succeed (DiscoveryResponse r))
      | StateRefreshRequest \<Rightarrow>
          (case stateRefreshRequest spotify [] of
             Inl e \<Rightarrow> Fail (ErrorResponse e)
           | Inr r \<Rightarrow> Succeed (StateRefreshResponse r))
      | CommandRequest \<Rightarrow>
          (case commandRequest spotify pick (devices request) [] of
             (Some e, run) \<Rightarrow> Fail (ErrorResponse e)
           | (None, run) \<Rightarrow> Succeed (CommandResponse (response run))))"

text \<open>
  \<open>promiseHandler\<close> resolves with status 200 on \<open>succeed\<close> and 500 on \<open>fail\<close>;
  the body, a JSON text in the source, is kept as the value it serialises.
\<close>

record HttpResult =
  statusCode :: nat
  result_body :: payload

definition promiseHandler :: "SpotifyWebApi \<Rightarrow> (nat \<Rightarrow> nat) \<Rightarrow> Request \<Rightarrow> HttpResult" where
  "promiseHandler spotify pick request =
     (case lambda spotify pick request of
        Succeed r \<Rightarrow> \<lparr> statusCode = 200, result_body = r \<rparr>
      | Fail r \<Rightarrow> \<lparr> statusCode = 500, result_body = r \<rparr>)"

section \<open>Notions used in the statements\<close>

text \<open>
  The dispatch table of the command handler as the spec gives it: the status reported
  for a command, and the rows the table has.
\<close>

definition reported :: "Command \<Rightarrow> AttributeState list" where
  "reported c =
     (if capability c = ''st.mediaPlayback'' \<and> command c = ''play''
        then [(''st.mediaPlayback'', ''playbackStatus'', ''playing'')]
      else if capability c = ''st.mediaPlayback'' \<and> command c = ''pause''
        then [(''st.mediaPlayback'', ''playbackStatus'', ''paused'')]
      else if capability c = ''st.mediaPlayback'' \<and> command c = ''fastForward''
        then [(''st.mediaPlayback'', ''playbackStatus'', ''playing'')]
      else if capability c = ''st.mediaPlayback'' \<and> command c = ''rewind''
        then [(''st.mediaPlayback'', ''playbackStatus'', ''playing'')]
      else [])"

definition known :: "Command \<Rightarrow> bool" where
  "known c =
     (capability c = ''st.mediaPlayback'' \<and>
      (command c = ''play'' \<or> command c = ''pause'' \<or> command c = ''fastForward''
       \<or> command c = ''rewind''))"

definition isPlay :: "Command \<Rightarrow> bool" where
  "isPlay c = (capability c = ''st.mediaPlayback'' \<and> command c = ''play'')"

text \<open>A \<open>play\<close> command of a device request whose provider call fails.\<close>

definition failing :: "SpotifyWebApi \<Rightarrow> DeviceRequest \<Rightarrow> Command \<Rightarrow> bool" where
  "failing spotify deviceRequest c =
     (capability c = ''st.mediaPlayback'' \<and> command c = ''play'' \<and>
      isl (play spotify
             (playlistUri (externalIdToPlaylistDeviceId (externalDeviceId deviceRequest)))
             (deviceId (externalIdToPlaylistDeviceId (externalDeviceId deviceRequest)))))"

text \<open>
  The pending calls that the synchronous part leaves behind, and the provider calls it
  issues: per command, per device request, and for a batch whose first entry gets the
  handle \<open>device\<close>.
\<close>

definition commandTasks :: "PlaylistDeviceId \<Rightarrow> component_handle \<Rightarrow> Command \<Rightarrow> pending list" where
  "commandTasks playlistDeviceId component c =
     (case commandBody playlistDeviceId c of
        Return \<Rightarrow> []
      | Await a k \<Rightarrow> [(component, a, k)])"

definition deviceTasks :: "nat \<Rightarrow> DeviceRequest \<Rightarrow> pending list" where
  "deviceTasks device deviceRequest =
     concat (map (commandTasks (externalIdToPlaylistDeviceId (externalDeviceId deviceRequest))
                    (device, 0))
               (commands deviceRequest))"

fun allTasks :: "nat \<Rightarrow> DeviceRequest list \<Rightarrow> pending list" where
  "allTasks device [] = []"
| "allTasks device (deviceRequest # rest) =
     deviceTasks device deviceRequest @ allTasks (Suc device) rest"

definition issued :: "DeviceRequest \<Rightarrow> call list" where
  "issued deviceRequest =
     concat (map (\<lambda>c. case commandBody (externalIdToPlaylistDeviceId (externalDeviceId deviceRequest)) c of
                         Return \<Rightarrow> [] | Await a k \<Rightarrow> [a])
               (commands deviceRequest))"

text \<open>The entry a device request has in the response before any state is added.\<close>

definition deviceEntry :: "DeviceRequest \<Rightarrow> CommandDevice" where
  "deviceEntry deviceRequest =
     \<lparr> cd_externalDeviceId = externalDeviceId deviceRequest,
       cd_components = [\<lparr> comp_name = ''main'', comp_states = [] \<rparr>] \<rparr>"

text \<open>
  The part of a command response that adding states leaves alone, the handles that
  point to a component of a response, and for a pending call whether its continuation
  throws and which states it adds to a given component.
\<close>

definition shape :: "CommandDevice list \<Rightarrow> (string \<times> string list) list" where
  "shape resp = map (\<lambda>e. (cd_externalDeviceId e, map comp_name (cd_components e))) resp"

definition valid :: "CommandDevice list \<Rightarrow> component_handle \<Rightarrow> bool" where
  "valid resp component =
     (case component of (device, i) \<Rightarrow>
        device < length resp \<and> i < length (cd_components (resp ! device)))"

definition rejects :: "SpotifyWebApi \<Rightarrow> pending \<Rightarrow> bool" where
  "rejects spotify t =
     (case t of (component, a, k) \<Rightarrow>
        (case k (perform spotify a) of Inl e \<Rightarrow> True | Inr r \<Rightarrow> False))"

definition adds :: "SpotifyWebApi \<Rightarrow> component_handle \<Rightarrow> pending \<Rightarrow> AttributeState list" where
  "adds spotify component t =
     (case t of (component', a, k) \<Rightarrow>
        if component' = component
        then (case k (perform spotify a) of Inl e \<Rightarrow> [] | Inr r \<Rightarrow> snd r)
        else [])"

text \<open>
  A provider used as the concrete input of the examples: three devices, of which one
  passes the selection, two playlists, and playback actions that fail for \<open>play\<close>
  and \<open>pause\<close>.
\<close>

definition demo_devices :: "SpotifyDevice list" where
  "demo_devices =
     [\<lparr> dev_id = Some ''d1'', dev_name = ''Mobile Web Player'', dev_type = ''Computer'' \<rparr>,
      \<lparr> dev_id = None, dev_name = ''Mobile Web Player'', dev_type = ''Computer'' \<rparr>,
      \<lparr> dev_id = Some ''d3'', dev_name = ''Kitchen'', dev_type = ''Speaker'' \<rparr>]"

definition demo_playlists :: "Playlist list" where
  "demo_playlists =
     [\<lparr> pl_uri = ''spotify:playlist:a'', pl_name = ''A'' \<rparr>,
      \<lparr> pl_uri = ''spotify:playlist:b'', pl_name = ''B'' \<rparr>]"

definition demo_spotify :: SpotifyWebApi where
  "demo_spotify =
     \<lparr> getMyDevices = Inr demo_devices,
       getUserPlaylists = Inr demo_playlists,
       getMyCurrentPlaybackState = Inr \<lparr> is_playing = Some True \<rparr>,
       play = (\<lambda>ctx dev. Inl (Error ''play failed'')),
       pause = (\<lambda>dev. Inl (Error ''pause failed'')),
       skipToNext = Inr (),
       skipToPrevious = Inr () \<rparr>"

section \<open>Proofs\<close>

subsection \<open>Properties of \<open>split\<close>\<close>

lemma split_absent: "d \<notin> set s \<Longrightarrow> split d s = [s]"
  by (simp add: split.simps)

lemma takeWhile_first: "d \<notin> set t \<Longrightarrow> takeWhile (\<lambda>c. c \<noteq> d) (t @ d # r) = t"
  by (induction t) auto

lemma dropWhile_first: "d \<notin> set t \<Longrightarrow> dropWhile (\<lambda>c. c \<noteq> d) (t @ d # r) = d # r"
  by (induction t) auto

lemma takeWhile_absent: "d \<notin> set s \<Longrightarrow> takeWhile (\<lambda>c. c \<noteq> d) s = s"
  by (induction s) auto

lemma split_first: "d \<notin> set t \<Longrightarrow> split d (t @ d # r) = t # split d r"
  by (subst split.simps) (simp add: takeWhile_first dropWhile_first)

lemma split_not_Nil: "split d s \<noteq> []"
  by (subst split.simps) simp

lemma hd_split: "hd (split d s) = takeWhile (\<lambda>c. c \<noteq> d) s"
  by (subst split.simps) (simp add: takeWhile_absent)

lemma decode_absent:
  "CHR ''|'' \<notin> set s \<Longrightarrow>
     externalIdToPlaylistDeviceId s = \<lparr> deviceId = Some s, playlistUri = None \<rparr>"
  by (simp add: externalIdToPlaylistDeviceId_def split_limit_def split_absent index_def)

lemma decode_present:
  assumes "CHR ''|'' \<notin> set t"
  shows "externalIdToPlaylistDeviceId (t @ CHR ''|'' # r) =
           \<lparr> deviceId = Some t, playlistUri = Some (takeWhile (\<lambda>c. c \<noteq> CHR ''|'') r) \<rparr>"
proof -
  obtain u us where u: "split (CHR ''|'') r = u # us"
    using split_not_Nil [of "CHR ''|''" r] by (cases "split (CHR ''|'') r") auto
  have "u = takeWhile (\<lambda>c. c \<noteq> CHR ''|'') r"
    using hd_split [of "CHR ''|''" r] u by simp
  with u assms show ?thesis
    by (simp add: externalIdToPlaylistDeviceId_def split_limit_def split_first index_def
        numeral_2_eq_2)
qed


lemma takeWhile_all_iff: "takeWhile (\<lambda>c. c \<noteq> d) r = r \<longleftrightarrow> d \<notin> set r"
  by (induction r) auto

lemma encode_defined:
  "playlistDeviceIdToExternalId \<lparr> deviceId = Some t, playlistUri = Some q \<rparr> = t @ CHR ''|'' # q"
  by (simp add: playlistDeviceIdToExternalId_def interpolate_def)

text \<open>
  Claim C1.  Decoding the encoding of a pair gives the pair back, whenever neither
  component contains the delimiter \<open>|\<close>.
\<close>

theorem C1_decode_encode:
  assumes "CHR ''|'' \<notin> set t" and "CHR ''|'' \<notin> set q"
  shows "externalIdToPlaylistDeviceId
           (playlistDeviceIdToExternalId \<lparr> deviceId = Some t, playlistUri = Some q \<rparr>)
         = \<lparr> deviceId = Some t, playlistUri = Some q \<rparr>"
  using assms by (simp add: encode_defined decode_present takeWhile_absent)

theorem C1_decode_encode_witness:
  "CHR ''|'' \<notin> set ''dev1'' \<and> CHR ''|'' \<notin> set ''spotify:playlist:ctx1'' \<and>
   externalIdToPlaylistDeviceId
     (playlistDeviceIdToExternalId
        \<lparr> deviceId = Some ''dev1'', playlistUri = Some ''spotify:playlist:ctx1'' \<rparr>)
   = \<lparr> deviceId = Some ''dev1'', playlistUri = Some ''spotify:playlist:ctx1'' \<rparr>"
proof -
  have t: "CHR ''|'' \<notin> set ''dev1''" by simp
  have q: "CHR ''|'' \<notin> set ''spotify:playlist:ctx1''" by simp
  from t q C1_decode_encode [OF t q] show ?thesis by blast
qed

text \<open>
  Claim C2, as stated, fails: the limit of \<open>split\<close> truncates the array of all pieces,
  so a second \<open>|\<close> ends the second field and what follows is dropped.
\<close>

theorem C2_remainder_counterexample:
  "externalIdToPlaylistDeviceId ''a|b|c'' = \<lparr> deviceId = Some ''a'', playlistUri = Some ''b'' \<rparr> \<and>
   externalIdToPlaylistDeviceId ''a|b|c'' \<noteq> \<lparr> deviceId = Some ''a'', playlistUri = Some ''b|c'' \<rparr>"
proof -
  have a: "CHR ''|'' \<notin> set ''a''" by simp
  from decode_present [OF a, of "''b|c''"]
  have "externalIdToPlaylistDeviceId ''a|b|c''
          = \<lparr> deviceId = Some ''a'', playlistUri = Some ''b'' \<rparr>"
    by simp
  then show ?thesis by simp
qed

text \<open>
  Claim C2, amended.  For an external id that contains \<open>|\<close>, the device id is the
  prefix before the first \<open>|\<close>, and the playlist uri is the text between the first
  \<open>|\<close> and the next one, or the end of the string when there is no further \<open>|\<close>;
  in that last case it is the entire remainder.
\<close>

theorem C2_decode_first_two_fields:
  assumes "CHR ''|'' \<in> set s"
  shows "externalIdToPlaylistDeviceId s =
           \<lparr> deviceId = Some (takeWhile (\<lambda>c. c \<noteq> CHR ''|'') s),
             playlistUri = Some (takeWhile (\<lambda>c. c \<noteq> CHR ''|'')
                                   (tl (dropWhile (\<lambda>c. c \<noteq> CHR ''|'') s))) \<rparr>
         \<and> (CHR ''|'' \<notin> set (tl (dropWhile (\<lambda>c. c \<noteq> CHR ''|'') s)) \<longrightarrow>
              playlistUri (externalIdToPlaylistDeviceId s) =
                Some (tl (dropWhile (\<lambda>c. c \<noteq> CHR ''|'') s)))"
proof -
  from assms obtain t r where s: "s = t @ CHR ''|'' # r" and t: "CHR ''|'' \<notin> set t"
    by (auto dest: split_list_first)
  show ?thesis
    unfolding s using t
    by (simp add: decode_present takeWhile_first dropWhile_first takeWhile_absent)
qed

theorem C2_decode_first_two_fields_witness:
  "CHR ''|'' \<in> set ''dev1|ctx1|x'' \<and>
   externalIdToPlaylistDeviceId ''dev1|ctx1|x'' =
     \<lparr> deviceId = Some ''dev1'', playlistUri = Some ''ctx1'' \<rparr> \<and>
   CHR ''|'' \<in> set ''dev1|ctx1'' \<and>
   playlistUri (externalIdToPlaylistDeviceId ''dev1|ctx1'') = Some ''ctx1''"
proof -
  have a: "CHR ''|'' \<in> set ''dev1|ctx1|x''" by simp
  have b: "CHR ''|'' \<in> set ''dev1|ctx1''" by simp
  from a b C2_decode_first_two_fields [OF a] C2_decode_first_two_fields [OF b]
  show ?thesis by simp
qed

text \<open>
  Claim C8.  Decoding is a total function without an error result.  The device id is
  always a defined string; without a delimiter in the input the playlist uri is
  \<open>undefined\<close> and the device id is the whole input; for the empty string the device
  id is the empty string and the playlist uri is \<open>undefined\<close>.
\<close>

theorem C8_decode_total:
  "deviceId (externalIdToPlaylistDeviceId s) \<noteq> None \<and>
   (CHR ''|'' \<notin> set s \<longrightarrow>
      externalIdToPlaylistDeviceId s = \<lparr> deviceId = Some s, playlistUri = None \<rparr>) \<and>
   externalIdToPlaylistDeviceId [] = \<lparr> deviceId = Some [], playlistUri = None \<rparr>"
proof -
  have "deviceId (externalIdToPlaylistDeviceId s) \<noteq> None"
    using split_not_Nil [of "CHR ''|''" s]
    by (simp add: externalIdToPlaylistDeviceId_def split_limit_def index_def)
  then show ?thesis by (simp add: decode_absent)
qed

theorem C8_decode_total_witness:
  "CHR ''|'' \<notin> set ''dev1'' \<and>
   externalIdToPlaylistDeviceId ''dev1'' = \<lparr> deviceId = Some ''dev1'', playlistUri = None \<rparr>"
  using C8_decode_total [of "''dev1''"] by simp

text \<open>
  Claim C10.  Encoding the decoding of a string gives the string back exactly when the
  string contains one \<open>|\<close>: without a \<open>|\<close> the text \<open>|undefined\<close> is appended, and
  with more than one \<open>|\<close> everything from the second \<open>|\<close> on is lost.
\<close>

theorem C10_encode_decode:
  "(count_list s (CHR ''|'') = 1 \<longrightarrow>
      playlistDeviceIdToExternalId (externalIdToPlaylistDeviceId s) = s) \<and>
   (count_list s (CHR ''|'') \<noteq> 1 \<longrightarrow>
      playlistDeviceIdToExternalId (externalIdToPlaylistDeviceId s) \<noteq> s)"
proof (cases "CHR ''|'' \<in> set s")
  case False
  then have "playlistDeviceIdToExternalId (externalIdToPlaylistDeviceId s) = s @ ''|undefined''"
    by (simp add: decode_absent playlistDeviceIdToExternalId_def interpolate_def)
  moreover from False have "count_list s (CHR ''|'') = 0" by (simp add: count_list_0_iff)
  ultimately show ?thesis by simp
next
  case True
  then obtain t r where s: "s = t @ CHR ''|'' # r" and t: "CHR ''|'' \<notin> set t"
    by (auto dest: split_list_first)
  have enc: "playlistDeviceIdToExternalId (externalIdToPlaylistDeviceId s)
               = t @ CHR ''|'' # takeWhile (\<lambda>c. c \<noteq> CHR ''|'') r"
    unfolding s using t by (simp add: decode_present encode_defined)
  from t have "count_list s (CHR ''|'') = Suc (count_list r (CHR ''|''))"
    unfolding s by (simp add: count_list_0_iff)
  then have cnt: "count_list s (CHR ''|'') = 1 \<longleftrightarrow> CHR ''|'' \<notin> set r"
    by (simp add: count_list_0_iff)
  have "t @ CHR ''|'' # takeWhile (\<lambda>c. c \<noteq> CHR ''|'') r = s \<longleftrightarrow> CHR ''|'' \<notin> set r"
    unfolding s using takeWhile_all_iff [of "CHR ''|''" r] by simp
  with enc cnt show ?thesis by simp
qed

theorem C10_encode_decode_witness:
  "count_list ''dev1|ctx1'' (CHR ''|'') = 1 \<and>
   playlistDeviceIdToExternalId (externalIdToPlaylistDeviceId ''dev1|ctx1'') = ''dev1|ctx1'' \<and>
   count_list ''dev1'' (CHR ''|'') \<noteq> 1 \<and>
   playlistDeviceIdToExternalId (externalIdToPlaylistDeviceId ''dev1'') \<noteq> ''dev1'' \<and>
   count_list ''a|b|c'' (CHR ''|'') \<noteq> 1 \<and>
   playlistDeviceIdToExternalId (externalIdToPlaylistDeviceId ''a|b|c'') \<noteq> ''a|b|c''"
  using C10_encode_decode [of "''dev1|ctx1''"] C10_encode_decode [of "''dev1''"]
    C10_encode_decode [of "''a|b|c''"]
  by simp

subsection \<open>Enumeration, discovery and state refresh\<close>

lemma foldl_push: "foldl (\<lambda>acc x. acc @ [f x]) acc xs = acc @ map f xs"
  by (induction xs arbitrary: acc) simp_all

lemma foldl_push_nested:
  "foldl (\<lambda>acc x. foldl (\<lambda>acc y. acc @ [g x y]) acc ys) acc xs
     = acc @ concat (map (\<lambda>x. map (g x) ys) xs)"
  by (induction xs arbitrary: acc) (simp_all add: foldl_push)

lemma length_product: "length (concat (map (\<lambda>x. map (g x) ys) xs)) = length xs * length ys"
  by (induction xs) simp_all

lemma selected_eq:
  "selected ds = filter (\<lambda>d. (\<exists>i. dev_id d = Some i \<and> i \<noteq> []) \<and> dev_name d = ''Mobile Web Player'') ds"
  unfolding selected_def truthy_def
  by (induction ds) (auto split: option.splits)

lemma getPlaylistDevices_ok:
  assumes "getMyDevices spotify = Inr ds" and "getUserPlaylists spotify = Inr ps"
  shows "getPlaylistDevices spotify
           = Inr (concat (map (\<lambda>d. map (playlistDevice d) ps) (selected ds)))"
  using assms by (simp add: getPlaylistDevices_def foldl_push_nested)

lemma pd_id_playlistDevice:
  "pd_id (playlistDevice d p) = \<lparr> deviceId = dev_id d, playlistUri = Some (pl_uri p) \<rparr>"
  by (simp add: playlistDevice_def)

lemma distinct_row:
  assumes "distinct (map pl_uri ps)"
  shows "distinct (map pd_id (map (playlistDevice d) ps))"
proof -
  have "map pd_id (map (playlistDevice d) ps)
          = map (\<lambda>u. \<lparr> deviceId = dev_id d, playlistUri = Some u \<rparr>) (map pl_uri ps)"
    by (simp add: pd_id_playlistDevice)
  moreover have "inj (\<lambda>u. \<lparr> deviceId = dev_id d, playlistUri = Some u \<rparr>)"
    by (rule injI) simp
  ultimately show ?thesis using assms
    by (simp only: distinct_map) (auto intro: inj_on_subset)
qed

lemma deviceId_row:
  "i \<in> set (map pd_id (map (playlistDevice d) ps)) \<Longrightarrow> deviceId i = dev_id d"
  by (auto simp: pd_id_playlistDevice)

lemma deviceId_product:
  "i \<in> set (map pd_id (concat (map (\<lambda>d. map (playlistDevice d) ps) ds)))
     \<Longrightarrow> deviceId i \<in> dev_id ` set ds"
  by (auto simp: pd_id_playlistDevice)

lemma distinct_product:
  assumes "distinct (map dev_id ds)" and "distinct (map pl_uri ps)"
  shows "distinct (map pd_id (concat (map (\<lambda>d. map (playlistDevice d) ps) ds)))"
  using assms(1)
proof (induction ds)
  case Nil
  then show ?case by simp
next
  case (Cons d ds)
  let ?row = "map pd_id (map (playlistDevice d) ps)"
  let ?rows = "map pd_id (concat (map (\<lambda>d. map (playlistDevice d) ps) ds))"
  from Cons.prems have fresh: "dev_id d \<notin> dev_id ` set ds" by simp
  have "set ?row \<inter> set ?rows = {}"
  proof (rule ccontr)
    assume "set ?row \<inter> set ?rows \<noteq> {}"
    then obtain i where row: "i \<in> set ?row" and rows: "i \<in> set ?rows" by blast
    from row have "deviceId i = dev_id d" by (rule deviceId_row)
    moreover from rows have "deviceId i \<in> dev_id ` set ds" by (rule deviceId_product)
    ultimately show False using fresh by simp
  qed
  moreover have "distinct ?row" by (rule distinct_row [OF assms(2)])
  moreover from Cons have "distinct ?rows" by simp
  moreover have "map pd_id (concat (map (\<lambda>d. map (playlistDevice d) ps) (d # ds))) = ?row @ ?rows"
    by simp
  ultimately show ?case by (simp only: distinct_append)
qed

lemma getPlaylistDevices_cong:
  assumes "getMyDevices sp1 = getMyDevices sp2" and "getUserPlaylists sp1 = getUserPlaylists sp2"
  shows "getPlaylistDevices sp1 = getPlaylistDevices sp2"
  unfolding getPlaylistDevices_def assms by (rule refl)

lemma discoveryRequest_ok:
  assumes "getPlaylistDevices spotify = Inr pds"
  shows "discoveryRequest spotify resp =
           Inr (resp @ map (\<lambda>pd.
                  \<lparr> dd_externalDeviceId = playlistDeviceIdToExternalId (pd_id pd),
                    dd_friendlyName = pd_name pd,
                    dd_deviceHandlerType = ''0284c595-fed5-4b00-9e02-6e85bb3b32fb'',
                    dd_manufacturerName = Some ''Spotify'',
                    dd_modelName = Some (pd_model pd) \<rparr>) pds)"
  using assms
  by (simp add: discoveryRequest_def Let_def addDiscoveryDevice_def foldl_push)

lemma stateRefreshRequest_ok:
  assumes "getPlaylistDevices spotify = Inr pds"
    and "getMyCurrentPlaybackState spotify = Inr pb"
  shows "stateRefreshRequest spotify resp =
           Inr (resp @ map (\<lambda>pd.
                  \<lparr> sd_externalDeviceId = playlistDeviceIdToExternalId (pd_id pd),
                    sd_states =
                      [\<lparr> st_component = ''main'', st_capability = ''st.mediaPlayback'',
                         st_attribute = ''supportedPlaybackCommands'',
                         st_value = StrArray [''pause'', ''play'', ''fastForward'', ''rewind''] \<rparr>,
                       \<lparr> st_component = ''main'', st_capability = ''st.mediaPlayback'',
                         st_attribute = ''playbackStatus'',
                         st_value = Str (if is_playing pb = Some True
                                         then ''playing'' else ''paused'') \<rparr>] \<rparr>) pds)"
  using assms
  by (simp add: stateRefreshRequest_def Let_def foldl_push)

subsection \<open>The synchronous part of the command handler\<close>

lemma startCommand_eq:
  "startCommand pid h acc c =
     (fst acc @ map (\<lambda>t. fst (snd t)) (commandTasks pid h c), snd acc @ commandTasks pid h c)"
  by (cases "commandBody pid c") (simp_all add: startCommand_def commandTasks_def)

lemma foldl_startCommand:
  "foldl (startCommand pid h) acc cs =
     (fst acc @ map (\<lambda>t. fst (snd t)) (concat (map (commandTasks pid h) cs)),
      snd acc @ concat (map (commandTasks pid h) cs))"
proof (induction cs arbitrary: acc)
  case Nil
  then show ?case by simp
next
  case (Cons c cs)
  show ?case by (simp add: Cons.IH) (simp add: startCommand_eq)
qed

lemma startDevice_eq:
  "startDevice (run, pend) d =
     (run \<lparr> calls := calls run @ map (\<lambda>t. fst (snd t)) (deviceTasks (length (response run)) d),
            response := response run @ [deviceEntry d] \<rparr>,
      pend @ deviceTasks (length (response run)) d)"
  by (simp add: startDevice_def addDevice_def addComponent_def foldl_startCommand
      deviceTasks_def deviceEntry_def Let_def)

lemma foldl_startDevice:
  "foldl startDevice (run, pend) ds =
     (run \<lparr> calls := calls run @ map (\<lambda>t. fst (snd t)) (allTasks (length (response run)) ds),
            response := response run @ map deviceEntry ds \<rparr>,
      pend @ allTasks (length (response run)) ds)"
proof (induction ds arbitrary: run pend)
  case Nil
  then show ?case by simp
next
  case (Cons d ds)
  show ?case by (simp add: startDevice_eq Cons.IH)
qed

lemma commandRequest_eq:
  "commandRequest spotify pick ds [] =
     settle spotify pick 0 (allTasks 0 ds)
       \<lparr> calls = map (\<lambda>t. fst (snd t)) (allTasks 0 ds), response = map deviceEntry ds,
         console = [] \<rparr>"
  by (simp add: commandRequest_def foldl_startDevice)

lemma calls_deviceTasks: "map (\<lambda>t. fst (snd t)) (deviceTasks i d) = issued d"
proof -
  have "map (\<lambda>t. fst (snd t)) (concat (map (commandTasks pid h) cs))
          = concat (map (\<lambda>c. case commandBody pid c of Return \<Rightarrow> [] | Await a k \<Rightarrow> [a]) cs)"
    for pid h cs
    by (induction cs) (auto simp: commandTasks_def split: body.splits)
  then show ?thesis by (simp add: deviceTasks_def issued_def)
qed

lemma calls_allTasks: "map (\<lambda>t. fst (snd t)) (allTasks i ds) = concat (map issued ds)"
  by (induction ds arbitrary: i) (simp_all add: calls_deviceTasks)

lemma handle_deviceTasks: "t \<in> set (deviceTasks i d) \<Longrightarrow> fst t = (i, 0)"
  by (auto simp: deviceTasks_def commandTasks_def split: body.splits)

lemma handle_allTasks:
  "t \<in> set (allTasks i ds) \<Longrightarrow> \<exists>j. i \<le> j \<and> j < i + length ds \<and> fst t = (j, 0)"
proof (induction ds arbitrary: i)
  case Nil
  then show ?case by simp
next
  case (Cons d ds)
  from Cons.prems consider "t \<in> set (deviceTasks i d)" | "t \<in> set (allTasks (Suc i) ds)"
    by auto
  then show ?case
  proof cases
    case 1
    then have "fst t = (i, 0)" by (rule handle_deviceTasks)
    then show ?thesis by auto
  next
    case 2
    from Cons.IH [OF this] obtain j where "Suc i \<le> j" "j < Suc i + length ds" "fst t = (j, 0)"
      by blast
    then show ?thesis by (intro exI [of _ j]) simp
  qed
qed

subsection \<open>Settling the pending calls\<close>

lemma settle_Nil: "settle spotify pick n [] run = (None, run)"
  by (simp add: settle.simps)

lemma settle_reject:
  assumes "pend \<noteq> []" and "pend ! (pick n mod length pend) = (h, a, k)"
    and "k (perform spotify a) = Inl e"
  shows "settle spotify pick n pend run = (Some e, run)"
  using assms by (subst settle.simps) (simp add: Let_def)

lemma settle_step:
  assumes "pend \<noteq> []" and "pend ! (pick n mod length pend) = (h, a, k)"
    and "k (perform spotify a) = Inr (lines, sts)"
  shows "settle spotify pick n pend run =
           settle spotify pick (Suc n)
             (take (pick n mod length pend) pend @ drop (Suc (pick n mod length pend)) pend)
             (run \<lparr> response := foldl (addState h) (response run) sts,
                    console := console run @ lines \<rparr>)"
  using assms by (subst settle.simps) (simp add: Let_def)

lemma settle_cases [case_names Nil Reject Step]:
  fixes P :: "nat \<Rightarrow> pending list \<Rightarrow> Run \<Rightarrow> bool"
  assumes nil: "\<And>n run. P n [] run"
    and reject: "\<And>n pend run h a k e.
        \<lbrakk> pend \<noteq> []; pend ! (pick n mod length pend) = (h, a, k);
          k (perform spotify a) = Inl e \<rbrakk> \<Longrightarrow> P n pend run"
    and step: "\<And>n pend run h a k lines sts.
        \<lbrakk> pend \<noteq> []; pend ! (pick n mod length pend) = (h, a, k);
          k (perform spotify a) = Inr (lines, sts);
          P (Suc n)
            (take (pick n mod length pend) pend @ drop (Suc (pick n mod length pend)) pend)
            (run \<lparr> response := foldl (addState h) (response run) sts,
                   console := console run @ lines \<rparr>) \<rbrakk> \<Longrightarrow> P n pend run"
  shows "P n pend run"
proof (induction "length pend" arbitrary: n pend run rule: less_induct)
  case less
  show ?case
  proof (cases "pend = []")
    case True
    then show ?thesis by (simp add: nil)
  next
    case False
    let ?j = "pick n mod length pend"
    from False have "?j < length pend" by simp
    then have shorter: "length (take ?j pend @ drop (Suc ?j) pend) < length pend" by simp
    obtain h a k where t: "pend ! ?j = (h, a, k)"
      by (cases "pend ! ?j") auto
    show ?thesis
    proof (cases "k (perform spotify a)")
      case (Inl e)
      with False t show ?thesis by (rule reject)
    next
      case (Inr b)
      obtain lines sts where b: "b = (lines, sts)" by (cases b) auto
      from False t Inr [unfolded b] less.hyps [OF shorter] show ?thesis by (rule step)
    qed
  qed
qed

lemma map_update_same: "f y = f (xs ! i) \<Longrightarrow> map f (xs[i := y]) = map f xs"
  by (cases "i < length xs") (simp_all add: map_update list_update_same_conv list_update_beyond)

lemma addState_shape: "shape (addState h resp s) = shape resp"
proof -
  obtain d i where h: "h = (d, i)" by (cases h)
  show ?thesis
    unfolding shape_def addState_def h
    by (simp, rule map_update_same, simp, rule map_update_same, simp)
qed

lemma foldl_addState_shape: "shape (foldl (addState h) resp sts) = shape resp"
  by (induction sts arbitrary: resp) (simp_all add: addState_shape)

lemma length_shape: "length (shape resp) = length resp"
  by (simp add: shape_def)

lemma valid_shape: "shape resp' = shape resp \<Longrightarrow> valid resp' h = valid resp h"
proof -
  assume eq: "shape resp' = shape resp"
  obtain d i where h: "h = (d, i)" by (cases h)
  from eq have len: "length resp' = length resp" by (metis length_shape)
  have "length (cd_components (resp' ! d)) = length (cd_components (resp ! d))"
    if "d < length resp"
  proof -
    from that len have "shape resp' ! d = (cd_externalDeviceId (resp' ! d), map comp_name (cd_components (resp' ! d)))"
      and "shape resp ! d = (cd_externalDeviceId (resp ! d), map comp_name (cd_components (resp ! d)))"
      by (simp_all add: shape_def)
    with eq have "map comp_name (cd_components (resp' ! d)) = map comp_name (cd_components (resp ! d))"
      by simp
    then show ?thesis by (rule map_eq_imp_length_eq)
  qed
  with len show ?thesis unfolding valid_def h by auto
qed

lemma statesAt_addState:
  assumes "valid resp h"
  shows "statesAt (addState h resp s) h' = (if h' = h then statesAt resp h @ [s] else statesAt resp h')"
proof -
  obtain d i where h: "h = (d, i)" by (cases h)
  obtain d' i' where h': "h' = (d', i')" by (cases h')
  from assms show ?thesis
    unfolding h h' valid_def statesAt_def addState_def
    by (simp add: nth_list_update)
qed

lemma statesAt_foldl_addState:
  assumes "valid resp h"
  shows "statesAt (foldl (addState h) resp sts) h'
           = (if h' = h then statesAt resp h @ sts else statesAt resp h')"
  using assms
proof (induction sts arbitrary: resp)
  case Nil
  then show ?case by simp
next
  case (Cons s sts)
  from Cons.prems have "valid (addState h resp s) h"
    by (simp add: valid_shape [OF addState_shape])
  from Cons.IH [OF this] Cons.prems show ?case
    by (simp add: statesAt_addState)
qed

lemma settle_shape:
  "shape (response (snd (settle spotify pick n pend run))) = shape (response run)
   \<and> calls (snd (settle spotify pick n pend run)) = calls run"
proof (induction n pend run rule: settle_cases [where spotify = spotify and pick = pick])
  case (Nil n run)
  show ?case by (simp add: settle_Nil)
next
  case (Reject n pend run h a k e)
  then show ?case by (simp add: settle_reject)
next
  case (Step n pend run h a k lines sts)
  then show ?case by (simp add: settle_step foldl_addState_shape)
qed

lemma set_remove_nth:
  assumes "j < length xs"
  shows "set xs = insert (xs ! j) (set (take j xs @ drop (Suc j) xs))"
proof -
  from assms have "xs = take j xs @ xs ! j # drop (Suc j) xs" by (rule id_take_nth_drop)
  then have "set xs = set (take j xs @ xs ! j # drop (Suc j) xs)" by simp
  then show ?thesis by simp
qed

lemma settle_resolves_iff:
  "fst (settle spotify pick n pend run) = None \<longleftrightarrow> (\<forall>t \<in> set pend. \<not> rejects spotify t)"
proof (induction n pend run rule: settle_cases [where spotify = spotify and pick = pick])
  case (Nil n run)
  show ?case by (simp add: settle_Nil)
next
  case (Reject n pend run h a k e)
  from Reject(1) have "pend ! (pick n mod length pend) \<in> set pend" by simp
  moreover from Reject have "rejects spotify (pend ! (pick n mod length pend))"
    by (simp add: rejects_def)
  ultimately show ?case using Reject by (auto simp: settle_reject)
next
  case (Step n pend run h a k lines sts)
  let ?j = "pick n mod length pend"
  from Step(1) have "?j < length pend" by simp
  from set_remove_nth [OF this]
  have "set pend = insert (pend ! ?j) (set (take ?j pend @ drop (Suc ?j) pend))" .
  moreover from Step have "\<not> rejects spotify (pend ! ?j)" by (simp add: rejects_def)
  ultimately have "(\<forall>t \<in> set pend. \<not> rejects spotify t)
     \<longleftrightarrow> (\<forall>t \<in> set (take ?j pend @ drop (Suc ?j) pend). \<not> rejects spotify t)"
    by (metis insert_iff)
  with Step show ?case by (simp add: settle_step)
qed

lemma settle_rejected_by:
  "fst (settle spotify pick n pend run) = Some e \<Longrightarrow>
     \<exists>h a k. (h, a, k) \<in> set pend \<and> k (perform spotify a) = Inl e"
proof (induction n pend run rule: settle_cases [where spotify = spotify and pick = pick])
  case (Nil n run)
  then show ?case by (simp add: settle_Nil)
next
  case (Reject n pend run h a k e')
  from Reject(1) have "pend ! (pick n mod length pend) \<in> set pend" by simp
  with Reject(2) have "(h, a, k) \<in> set pend" by simp
  moreover from Reject have "e' = e" by (simp add: settle_reject)
  ultimately show ?case using Reject(3) by blast
next
  case (Step n pend run h a k lines sts)
  let ?j = "pick n mod length pend"
  from Step(1) have "?j < length pend" by simp
  from set_remove_nth [OF this]
  have "set (take ?j pend @ drop (Suc ?j) pend) \<subseteq> set pend" by blast
  with Step show ?case by (simp add: settle_step) blast
qed

lemma mset_concat_map_remove_nth:
  assumes "j < length xs"
  shows "mset (concat (map f xs))
           = mset (f (xs ! j)) + mset (concat (map f (take j xs @ drop (Suc j) xs)))"
proof -
  from assms have "xs = take j xs @ xs ! j # drop (Suc j) xs" by (rule id_take_nth_drop)
  then have "mset (concat (map f xs))
               = mset (concat (map f (take j xs @ xs ! j # drop (Suc j) xs)))" by simp
  then show ?thesis by simp
qed

lemma settle_states:
  assumes "fst (settle spotify pick n pend run) = None"
    and "\<forall>t \<in> set pend. valid (response run) (fst t)"
  shows "mset (statesAt (response (snd (settle spotify pick n pend run))) h)
           = mset (statesAt (response run) h) + mset (concat (map (adds spotify h) pend))"
  using assms
proof (induction n pend run rule: settle_cases [where spotify = spotify and pick = pick])
  case (Nil n run)
  show ?case by (simp add: settle_Nil)
next
  case (Reject n pend run h' a k e)
  then show ?case by (simp add: settle_reject)
next
  case (Step n pend run h' a k lines sts)
  let ?j = "pick n mod length pend"
  let ?rest = "take ?j pend @ drop (Suc ?j) pend"
  let ?run = "run \<lparr> response := foldl (addState h') (response run) sts,
                    console := console run @ lines \<rparr>"
  from Step(1) have j: "?j < length pend" by simp
  then have "pend ! ?j \<in> set pend" by simp
  with Step.prems(2) Step(2) have v: "valid (response run) h'" by force
  have sub: "set ?rest \<subseteq> set pend" using set_remove_nth [OF j] by blast
  from Step.prems(1) Step(1,2,3) have "fst (settle spotify pick (Suc n) ?rest ?run) = None"
    by (simp add: settle_step)
  moreover have "\<forall>t \<in> set ?rest. valid (response ?run) (fst t)"
    using Step.prems(2) sub by (auto simp: valid_shape [OF foldl_addState_shape])
  ultimately have "mset (statesAt (response (snd (settle spotify pick (Suc n) ?rest ?run))) h)
      = mset (statesAt (response ?run) h) + mset (concat (map (adds spotify h) ?rest))"
    by (rule Step.IH)
  moreover have "adds spotify h (pend ! ?j) = (if h' = h then sts else [])"
    using Step(2,3) by (simp add: adds_def)
  moreover have "statesAt (response ?run) h
                   = (if h = h' then statesAt (response run) h' @ sts else statesAt (response run) h)"
    using v by (simp add: statesAt_foldl_addState)
  ultimately show ?case
    using Step(1,2,3) mset_concat_map_remove_nth [OF j, of "adds spotify h"]
    by (simp add: settle_step)
qed

subsection \<open>The command handler as a whole\<close>

lemma valid_allTasks:
  assumes "t \<in> set (allTasks 0 ds)"
  shows "valid (map deviceEntry ds) (fst t)"
proof -
  from handle_allTasks [OF assms] obtain j where "j < length ds" and "fst t = (j, 0)" by auto
  then show ?thesis by (simp add: valid_def deviceEntry_def)
qed

lemma rejects_commandTasks:
  "(\<exists>t \<in> set (commandTasks (externalIdToPlaylistDeviceId (externalDeviceId d)) h c). rejects spotify t)
     \<longleftrightarrow> failing spotify d c"
  by (cases h) (auto simp: commandTasks_def commandBody_def rejects_def failing_def
      perform_def isl_def split: sum.splits)

lemma rejects_deviceTasks:
  "(\<exists>t \<in> set (deviceTasks i d). rejects spotify t) \<longleftrightarrow> (\<exists>c \<in> set (commands d). failing spotify d c)"
  using rejects_commandTasks [of d "(i, 0)" _ spotify]
  by (simp add: deviceTasks_def)

lemma rejects_allTasks:
  "(\<exists>t \<in> set (allTasks i ds). rejects spotify t)
     \<longleftrightarrow> (\<exists>d \<in> set ds. \<exists>c \<in> set (commands d). failing spotify d c)"
proof (induction ds arbitrary: i)
  case Nil
  show ?case by simp
next
  case (Cons d ds)
  have "(\<exists>t \<in> set (allTasks i (d # ds)). rejects spotify t)
     \<longleftrightarrow> (\<exists>t \<in> set (deviceTasks i d). rejects spotify t)
         \<or> (\<exists>t \<in> set (allTasks (Suc i) ds). rejects spotify t)"
    by auto
  then show ?case unfolding Cons.IH rejects_deviceTasks by auto
qed

lemma adds_commandTasks:
  assumes "\<not> failing spotify d c"
  shows "concat (map (adds spotify h)
                   (commandTasks (externalIdToPlaylistDeviceId (externalDeviceId d)) h' c))
           = (if h' = h then reported c else [])"
  using assms
  by (auto simp: commandTasks_def commandBody_def adds_def failing_def reported_def perform_def
      isl_def split: sum.splits)

lemma adds_deviceTasks:
  assumes "\<forall>c \<in> set (commands d). \<not> failing spotify d c"
  shows "concat (map (adds spotify (i, 0)) (deviceTasks j d))
           = (if j = i then concat (map reported (commands d)) else [])"
proof -
  have "concat (map (adds spotify (i, 0))
                  (concat (map (commandTasks (externalIdToPlaylistDeviceId (externalDeviceId d)) (j, 0)) cs)))
          = (if j = i then concat (map reported cs) else [])"
    if "\<forall>c \<in> set cs. \<not> failing spotify d c" for cs
    using that by (induction cs) (simp_all add: adds_commandTasks)
  from this [OF assms] show ?thesis by (simp add: deviceTasks_def)
qed

lemma adds_allTasks:
  assumes "\<forall>d \<in> set ds. \<forall>c \<in> set (commands d). \<not> failing spotify d c"
    and "i0 \<le> i" and "i < i0 + length ds"
  shows "concat (map (adds spotify (i, 0)) (allTasks i0 ds))
           = concat (map reported (commands (ds ! (i - i0))))"
  using assms
proof (induction ds arbitrary: i0)
  case Nil
  then show ?case by simp
next
  case (Cons d ds)
  from Cons.prems(1) have d: "\<forall>c \<in> set (commands d). \<not> failing spotify d c"
    and ds: "\<forall>d \<in> set ds. \<forall>c \<in> set (commands d). \<not> failing spotify d c" by simp_all
  show ?case
  proof (cases "i = i0")
    case True
    have "concat (map (adds spotify (i, 0)) (allTasks (Suc i0) ds)) = []"
    proof -
      have "adds spotify (i, 0) t = []" if "t \<in> set (allTasks (Suc i0) ds)" for t
      proof -
        from handle_allTasks [OF that] True have "fst t \<noteq> (i, 0)" by auto
        then show ?thesis by (cases t) (auto simp: adds_def)
      qed
      then show ?thesis by simp
    qed
    with True show ?thesis by (simp add: adds_deviceTasks [OF d])
  next
    case False
    with Cons.prems have "Suc i0 \<le> i" and "i < Suc i0 + length ds" by simp_all
    from Cons.IH [OF ds this] False Cons.prems(2) show ?thesis
      by (simp add: adds_deviceTasks [OF d] Suc_diff_Suc)
  qed
qed

lemma shape_deviceEntry:
  "shape (map deviceEntry ds) = map (\<lambda>d. (externalDeviceId d, [''main''])) ds"
  by (simp add: shape_def deviceEntry_def)

lemma commandRequest_shape:
  "shape (response (snd (commandRequest spotify pick ds [])))
     = map (\<lambda>d. (externalDeviceId d, [''main''])) ds"
  using settle_shape [of spotify pick 0 "allTasks 0 ds"]
  by (simp add: commandRequest_eq shape_deviceEntry)

lemma commandRequest_calls:
  "calls (snd (commandRequest spotify pick ds [])) = concat (map issued ds)"
  using settle_shape [of spotify pick 0 "allTasks 0 ds"]
  by (simp add: commandRequest_eq calls_allTasks)

lemma commandRequest_resolves_iff:
  "fst (commandRequest spotify pick ds []) = None
     \<longleftrightarrow> (\<forall>d \<in> set ds. \<forall>c \<in> set (commands d). \<not> failing spotify d c)"
  using rejects_allTasks [of 0 ds spotify]
  by (simp add: commandRequest_eq settle_resolves_iff) blast

lemma statesAt_deviceEntry:
  "i < length ds \<Longrightarrow> statesAt (map deviceEntry ds) (i, 0) = []"
  by (simp add: statesAt_def deviceEntry_def)

lemma commandRequest_states:
  assumes "fst (commandRequest spotify pick ds []) = None" and "i < length ds"
  shows "mset (statesAt (response (snd (commandRequest spotify pick ds []))) (i, 0))
           = mset (concat (map reported (commands (ds ! i))))"
proof -
  let ?run = "\<lparr> calls = map (\<lambda>t. fst (snd t)) (allTasks 0 ds),
                response = map deviceEntry ds, console = [] \<rparr>"
  from assms(1) have none: "fst (settle spotify pick 0 (allTasks 0 ds) ?run) = None"
    by (simp add: commandRequest_eq)
  have ok: "\<forall>d \<in> set ds. \<forall>c \<in> set (commands d). \<not> failing spotify d c"
    using assms(1) by (simp add: commandRequest_resolves_iff)
  have "\<forall>t \<in> set (allTasks 0 ds). valid (response ?run) (fst t)"
    by (simp add: valid_allTasks)
  from settle_states [OF none this, of "(i, 0)"] assms(2) show ?thesis
    by (simp add: commandRequest_eq statesAt_deviceEntry adds_allTasks [OF ok])
qed

lemma commandTasks_unknown: "\<not> known c \<Longrightarrow> commandTasks pid h c = []"
  by (auto simp: commandTasks_def commandBody_def known_def)

lemma deviceTasks_known:
  "deviceTasks i (d \<lparr> commands := filter known (commands d) \<rparr>) = deviceTasks i d"
proof -
  have "concat (map (commandTasks pid h) (filter known cs)) = concat (map (commandTasks pid h) cs)"
    for pid h cs
    by (induction cs) (simp_all add: commandTasks_unknown)
  then show ?thesis by (simp add: deviceTasks_def)
qed

lemma allTasks_known:
  "allTasks i (map (\<lambda>d. d \<lparr> commands := filter known (commands d) \<rparr>) ds) = allTasks i ds"
  by (induction ds arbitrary: i) (simp_all add: deviceTasks_known)

lemma commandRequest_known:
  "commandRequest spotify pick (map (\<lambda>d. d \<lparr> commands := filter known (commands d) \<rparr>) ds) []
     = commandRequest spotify pick ds []"
proof -
  have "map deviceEntry (map (\<lambda>d. d \<lparr> commands := filter known (commands d) \<rparr>) ds)
          = map deviceEntry ds"
    by (simp add: deviceEntry_def)
  then show ?thesis by (simp only: commandRequest_eq allTasks_known)
qed

lemma count_issued:
  "count_list (issued d) (Play q t) =
     (if externalIdToPlaylistDeviceId (externalDeviceId d) = \<lparr> deviceId = t, playlistUri = q \<rparr>
      then length (filter isPlay (commands d)) else 0)"
proof -
  let ?pid = "externalIdToPlaylistDeviceId (externalDeviceId d)"
  have eq: "?pid = \<lparr> deviceId = t, playlistUri = q \<rparr> \<longleftrightarrow> deviceId ?pid = t \<and> playlistUri ?pid = q"
    by (cases ?pid) auto
  let ?g = "\<lambda>c. case commandBody ?pid c of Return \<Rightarrow> [] | Await a k \<Rightarrow> [a]"
  have one: "count_list (?g c) (Play q t)
               = (if deviceId ?pid = t \<and> playlistUri ?pid = q \<and> isPlay c then 1 else 0)" for c
    by (auto simp: commandBody_def isPlay_def)
  have "count_list (concat (map ?g cs)) (Play q t)
        = (if deviceId ?pid = t \<and> playlistUri ?pid = q then length (filter isPlay cs) else 0)"
    for cs
    by (induction cs) (simp_all add: one)
  then show ?thesis unfolding issued_def eq by simp
qed

lemma count_calls:
  "count_list (concat (map issued ds)) (Play q t) =
     sum_list (map (\<lambda>d. if externalIdToPlaylistDeviceId (externalDeviceId d)
                            = \<lparr> deviceId = t, playlistUri = q \<rparr>
                         then length (filter isPlay (commands d)) else 0) ds)"
  by (induction ds) (simp_all add: count_issued)

lemma commandBody_play:
  assumes "capability c = ''st.mediaPlayback''" and "command c = ''play''"
  shows "\<exists>k. commandBody pid c = Await (Play (playlistUri pid) (deviceId pid)) k
           \<and> k (Inr ()) = Inr ([], [(''st.mediaPlayback'', ''playbackStatus'', ''playing'')])
           \<and> (\<forall>e. k (Inl e) = Inl e)"
  using assms by (simp add: commandBody_def)

lemma commandRequest_single:
  assumes "commandBody (externalIdToPlaylistDeviceId x) c = Await a k"
  shows "commandRequest spotify pick [\<lparr> externalDeviceId = x, commands = [c] \<rparr>] [] =
           (case k (perform spotify a) of
              Inl e \<Rightarrow>
                (Some e,
                 \<lparr> calls = [a],
                   response = [\<lparr> cd_externalDeviceId = x,
                                 cd_components = [\<lparr> comp_name = ''main'', comp_states = [] \<rparr>] \<rparr>],
                   console = [] \<rparr>)
            | Inr r \<Rightarrow>
                (None,
                 \<lparr> calls = [a],
                   response = [\<lparr> cd_externalDeviceId = x,
                                 cd_components = [\<lparr> comp_name = ''main'', comp_states = snd r \<rparr>] \<rparr>],
                   console = fst r \<rparr>))"
proof -
  let ?run = "\<lparr> calls = [a],
                response = [\<lparr> cd_externalDeviceId = x,
                              cd_components = [\<lparr> comp_name = ''main'', comp_states = [] \<rparr>] \<rparr>],
                console = [] \<rparr>"
  have start: "commandRequest spotify pick [\<lparr> externalDeviceId = x, commands = [c] \<rparr>] []
                 = settle spotify pick 0 [((0, 0), a, k)] ?run"
    using assms by (simp add: commandRequest_eq deviceTasks_def commandTasks_def deviceEntry_def)
  have add: "foldl (addState (0, 0))
               [\<lparr> cd_externalDeviceId = x,
                  cd_components = [\<lparr> comp_name = ''main'', comp_states = [] \<rparr>] \<rparr>] sts
               = [\<lparr> cd_externalDeviceId = x,
                    cd_components = [\<lparr> comp_name = ''main'', comp_states = sts \<rparr>] \<rparr>]" for sts
  proof -
    have "foldl (addState (0, 0))
            [\<lparr> cd_externalDeviceId = x,
               cd_components = [\<lparr> comp_name = ''main'', comp_states = acc \<rparr>] \<rparr>] sts
          = [\<lparr> cd_externalDeviceId = x,
               cd_components = [\<lparr> comp_name = ''main'', comp_states = acc @ sts \<rparr>] \<rparr>]" for acc
      by (induction sts arbitrary: acc) (simp_all add: addState_def)
    from this [of "[]"] show ?thesis by simp
  qed
  show ?thesis
  proof (cases "k (perform spotify a)")
    case (Inl e)
    then show ?thesis unfolding start by (simp add: settle_reject [where h = "(0, 0)" and a = a and k = k])
  next
    case (Inr r)
    obtain lines sts where r: "r = (lines, sts)" by (cases r)
    have "settle spotify pick 0 [((0, 0), a, k)] ?run
            = settle spotify pick (Suc 0) []
                (?run \<lparr> response := foldl (addState (0, 0)) (response ?run) sts,
                        console := console ?run @ lines \<rparr>)"
      using Inr r settle_step [of "[((0, 0), a, k)]" pick 0 "(0, 0)" a k spotify lines sts ?run]
      by simp
    then show ?thesis unfolding start using Inr r by (simp add: settle_Nil add)
  qed
qed

subsection \<open>The claims on enumeration, refresh, discovery and commands\<close>

text \<open>
  Claim C3.  When both read calls succeed, \<open>getPlaylistDevices\<close> returns one
  record per pair of a selected device and a playlist: as many records as the product
  of the two counts.  A device is selected when its id is a non-empty string and its
  name is \<open>Mobile Web Player\<close>.  When the selected devices have distinct ids and
  the playlists distinct uris, the composite ids of the records are distinct.
\<close>

theorem C3_cross_product:
  assumes "getMyDevices spotify = Inr ds" and "getUserPlaylists spotify = Inr ps"
  shows "\<exists>result. getPlaylistDevices spotify = Inr result
           \<and> length result = length (selected ds) * length ps
           \<and> (distinct (map dev_id (selected ds)) \<and> distinct (map pl_uri ps)
                \<longrightarrow> distinct (map pd_id result))
           \<and> selected ds = filter (\<lambda>d. (\<exists>i. dev_id d = Some i \<and> i \<noteq> [])
                                        \<and> dev_name d = ''Mobile Web Player'') ds"
  using getPlaylistDevices_ok [OF assms] selected_eq [of ds]
  by (simp add: length_product distinct_product)

lemma selected_demo:
  "selected demo_devices =
     [\<lparr> dev_id = Some ''d1'', dev_name = ''Mobile Web Player'', dev_type = ''Computer'' \<rparr>]"
  by (simp add: selected_def truthy_def demo_devices_def)

theorem C3_cross_product_witness:
  "getMyDevices demo_spotify = Inr demo_devices \<and>
   getUserPlaylists demo_spotify = Inr demo_playlists \<and>
   distinct (map dev_id (selected demo_devices)) \<and> distinct (map pl_uri demo_playlists) \<and>
   (\<exists>result. getPlaylistDevices demo_spotify = Inr result \<and> length result = 1 * 2
      \<and> distinct (map pd_id result))"
proof -
  have d: "getMyDevices demo_spotify = Inr demo_devices" by (simp add: demo_spotify_def)
  have p: "getUserPlaylists demo_spotify = Inr demo_playlists" by (simp add: demo_spotify_def)
  have dd: "distinct (map dev_id (selected demo_devices))" by (simp add: selected_demo)
  have dp: "distinct (map pl_uri demo_playlists)" by (simp add: demo_playlists_def)
  have n: "length (selected demo_devices) = 1" "length demo_playlists = 2"
    by (simp_all add: selected_demo demo_playlists_def)
  from C3_cross_product [OF d p] dd dp n have
    "\<exists>result. getPlaylistDevices demo_spotify = Inr result \<and> length result = 1 * 2
      \<and> distinct (map pd_id result)"
    by auto
  with d p dd dp show ?thesis by blast
qed

lemma getPlaylistDevices_demo:
  "getPlaylistDevices demo_spotify =
     Inr [\<lparr> pd_id = \<lparr> deviceId = Some ''d1'', playlistUri = Some ''spotify:playlist:a'' \<rparr>,
            pd_name = ''Playlist A on'' @ CHR 0xA0 # ''Mobile Web Player'', pd_model = ''Computer'' \<rparr>,
          \<lparr> pd_id = \<lparr> deviceId = Some ''d1'', playlistUri = Some ''spotify:playlist:b'' \<rparr>,
            pd_name = ''Playlist B on'' @ CHR 0xA0 # ''Mobile Web Player'', pd_model = ''Computer'' \<rparr>]"
proof -
  have d: "getMyDevices demo_spotify = Inr demo_devices" by (simp add: demo_spotify_def)
  have p: "getUserPlaylists demo_spotify = Inr demo_playlists" by (simp add: demo_spotify_def)
  show ?thesis
    unfolding getPlaylistDevices_ok [OF d p] selected_demo
    by (simp add: demo_playlists_def playlistDevice_def)
qed

text \<open>
  Claim C6.  When enumeration and the playback snapshot succeed, the state refresh
  adds one entry per enumerated device, under its encoded id, and every entry carries
  the same two states: the fixed list of supported commands, and the playback status,
  \<open>playing\<close> when the one reported flag is true and \<open>paused\<close> otherwise.
\<close>

theorem C6_refresh_uniform:
  assumes "getPlaylistDevices spotify = Inr pds"
    and "getMyCurrentPlaybackState spotify = Inr pb"
  shows "\<exists>r. stateRefreshRequest spotify [] = Inr r
           \<and> map sd_externalDeviceId r = map (\<lambda>pd. playlistDeviceIdToExternalId (pd_id pd)) pds
           \<and> (\<forall>e \<in> set r. sd_states e =
                 [\<lparr> st_component = ''main'', st_capability = ''st.mediaPlayback'',
                    st_attribute = ''supportedPlaybackCommands'',
                    st_value = StrArray [''pause'', ''play'', ''fastForward'', ''rewind''] \<rparr>,
                  \<lparr> st_component = ''main'', st_capability = ''st.mediaPlayback'',
                    st_attribute = ''playbackStatus'',
                    st_value = Str (if is_playing pb = Some True
                                    then ''playing'' else ''paused'') \<rparr>])"
  unfolding stateRefreshRequest_ok [OF assms]
  by (auto simp: comp_def)

theorem C6_refresh_uniform_witness:
  "getMyCurrentPlaybackState demo_spotify = Inr \<lparr> is_playing = Some True \<rparr> \<and>
   (\<exists>r. stateRefreshRequest demo_spotify [] = Inr r
      \<and> map sd_externalDeviceId r = [''d1|spotify:playlist:a'', ''d1|spotify:playlist:b'']
      \<and> map sd_states r = replicate 2
            [\<lparr> st_component = ''main'', st_capability = ''st.mediaPlayback'',
               st_attribute = ''supportedPlaybackCommands'',
               st_value = StrArray [''pause'', ''play'', ''fastForward'', ''rewind''] \<rparr>,
             \<lparr> st_component = ''main'', st_capability = ''st.mediaPlayback'',
               st_attribute = ''playbackStatus'', st_value = Str ''playing'' \<rparr>])"
proof -
  let ?s = "[\<lparr> st_component = ''main'', st_capability = ''st.mediaPlayback'',
               st_attribute = ''supportedPlaybackCommands'',
               st_value = StrArray [''pause'', ''play'', ''fastForward'', ''rewind''] \<rparr>,
             \<lparr> st_component = ''main'', st_capability = ''st.mediaPlayback'',
               st_attribute = ''playbackStatus'', st_value = Str ''playing'' \<rparr>]"
  have s: "getMyCurrentPlaybackState demo_spotify = Inr \<lparr> is_playing = Some True \<rparr>"
    by (simp add: demo_spotify_def)
  from C6_refresh_uniform [OF getPlaylistDevices_demo s]
  obtain r where r: "stateRefreshRequest demo_spotify [] = Inr r"
    and ids: "map sd_externalDeviceId r = [''d1|spotify:playlist:a'', ''d1|spotify:playlist:b'']"
    and sts: "\<forall>e \<in> set r. sd_states e = ?s"
    by (auto simp: playlistDeviceIdToExternalId_def interpolate_def)
  from ids have "length (map sd_externalDeviceId r) = 2" by simp
  then have "length r = 2" by simp
  with sts have all: "map sd_states r = replicate 2 ?s"
    by (intro replicate_eqI) auto
  show ?thesis
  proof (intro conjI exI [of _ r])
    show "getMyCurrentPlaybackState demo_spotify = Inr \<lparr> is_playing = Some True \<rparr>" by (rule s)
    show "stateRefreshRequest demo_spotify [] = Inr r" by (rule r)
    show "map sd_externalDeviceId r = [''d1|spotify:playlist:a'', ''d1|spotify:playlist:b'']"
      by (rule ids)
    show "map sd_states r = replicate 2 ?s" by (rule all)
  qed
qed

lemma announcements_expanded:
  "map (\<lambda>pd.
          \<lparr> dd_externalDeviceId = playlistDeviceIdToExternalId (pd_id pd),
            dd_friendlyName = pd_name pd,
            dd_deviceHandlerType = ''0284c595-fed5-4b00-9e02-6e85bb3b32fb'',
            dd_manufacturerName = Some ''Spotify'',
            dd_modelName = Some (pd_model pd) \<rparr>)
     (concat (map (\<lambda>d. map (playlistDevice d) ps) sel))
   = concat (map (\<lambda>d. map (\<lambda>p.
          \<lparr> dd_externalDeviceId = interpolate (dev_id d) @ ''|'' @ pl_uri p,
            dd_friendlyName = ''Playlist '' @ pl_name p @ '' on'' @ [CHR 0xA0] @ dev_name d,
            dd_deviceHandlerType = ''0284c595-fed5-4b00-9e02-6e85bb3b32fb'',
            dd_manufacturerName = Some ''Spotify'',
            dd_modelName = Some (dev_type d) \<rparr>) ps) sel)"
  by (simp add: map_concat comp_def playlistDevice_def playlistDeviceIdToExternalId_def
      interpolate_def)

text \<open>
  Claim C9.  Two discovery runs, each on a new response, against providers that report
  the same devices and the same playlists have the same result, whatever else differs
  between the two providers; when the reports are lists, the result is the list of
  announcements determined by them alone: for each selected device and each playlist,
  in that order, the encoded id, the name \<open>Playlist\<close>, playlist name, \<open>on\<close>,
  no-break space, device name, the fixed profile, the manufacturer \<open>Spotify\<close> and
  the device's type as model.
\<close>

theorem C9_discovery_idempotent:
  assumes "getMyDevices sp1 = getMyDevices sp2"
    and "getUserPlaylists sp1 = getUserPlaylists sp2"
  shows "discoveryRequest sp1 [] = discoveryRequest sp2 []
         \<and> (\<forall>ds ps. getMyDevices sp1 = Inr ds \<and> getUserPlaylists sp1 = Inr ps \<longrightarrow>
               discoveryRequest sp1 [] =
                 Inr (map (\<lambda>pd.
                        \<lparr> dd_externalDeviceId = playlistDeviceIdToExternalId (pd_id pd),
                          dd_friendlyName = pd_name pd,
                          dd_deviceHandlerType = ''0284c595-fed5-4b00-9e02-6e85bb3b32fb'',
                          dd_manufacturerName = Some ''Spotify'',
                          dd_modelName = Some (pd_model pd) \<rparr>)
                      (concat (map (\<lambda>d. map (playlistDevice d) ps) (selected ds)))))
         \<and> (\<forall>ds ps. getMyDevices sp1 = Inr ds \<and> getUserPlaylists sp1 = Inr ps \<longrightarrow>
               discoveryRequest sp1 [] =
                 Inr (concat (map (\<lambda>d. map (\<lambda>p.
                        \<lparr> dd_externalDeviceId = interpolate (dev_id d) @ ''|'' @ pl_uri p,
                          dd_friendlyName =
                            ''Playlist '' @ pl_name p @ '' on'' @ [CHR 0xA0] @ dev_name d,
                          dd_deviceHandlerType = ''0284c595-fed5-4b00-9e02-6e85bb3b32fb'',
                          dd_manufacturerName = Some ''Spotify'',
                          dd_modelName = Some (dev_type d) \<rparr>) ps) (selected ds))))"
proof -
  have "discoveryRequest sp1 [] = discoveryRequest sp2 []"
    using getPlaylistDevices_cong [OF assms] by (simp add: discoveryRequest_def)
  moreover have "discoveryRequest sp1 [] =
                 Inr (map (\<lambda>pd.
                        \<lparr> dd_externalDeviceId = playlistDeviceIdToExternalId (pd_id pd),
                          dd_friendlyName = pd_name pd,
                          dd_deviceHandlerType = ''0284c595-fed5-4b00-9e02-6e85bb3b32fb'',
                          dd_manufacturerName = Some ''Spotify'',
                          dd_modelName = Some (pd_model pd) \<rparr>)
                      (concat (map (\<lambda>d. map (playlistDevice d) ps) (selected ds))))"
    if "getMyDevices sp1 = Inr ds" and "getUserPlaylists sp1 = Inr ps" for ds ps
    using discoveryRequest_ok [OF getPlaylistDevices_ok [OF that], of "[]"] by simp
  moreover have "discoveryRequest sp1 [] =
                 Inr (concat (map (\<lambda>d. map (\<lambda>p.
                        \<lparr> dd_externalDeviceId = interpolate (dev_id d) @ ''|'' @ pl_uri p,
                          dd_friendlyName =
                            ''Playlist '' @ pl_name p @ '' on'' @ [CHR 0xA0] @ dev_name d,
                          dd_deviceHandlerType = ''0284c595-fed5-4b00-9e02-6e85bb3b32fb'',
                          dd_manufacturerName = Some ''Spotify'',
                          dd_modelName = Some (dev_type d) \<rparr>) ps) (selected ds)))"
    if "getMyDevices sp1 = Inr ds" and "getUserPlaylists sp1 = Inr ps" for ds ps
    using discoveryRequest_ok [OF getPlaylistDevices_ok [OF that], of "[]"]
    by (simp only: append_Nil announcements_expanded)
  ultimately show ?thesis by blast
qed

theorem C9_discovery_idempotent_witness:
  "getMyDevices demo_spotify
     = getMyDevices (demo_spotify \<lparr> getMyCurrentPlaybackState := Inr \<lparr> is_playing = None \<rparr>,
                                    pause := (\<lambda>dev. Inr ()) \<rparr>) \<and>
   getUserPlaylists demo_spotify
     = getUserPlaylists (demo_spotify \<lparr> getMyCurrentPlaybackState := Inr \<lparr> is_playing = None \<rparr>,
                                        pause := (\<lambda>dev. Inr ()) \<rparr>) \<and>
   discoveryRequest demo_spotify []
     = discoveryRequest (demo_spotify \<lparr> getMyCurrentPlaybackState := Inr \<lparr> is_playing = None \<rparr>,
                                         pause := (\<lambda>dev. Inr ()) \<rparr>) [] \<and>
   getMyDevices demo_spotify = Inr demo_devices \<and>
   getUserPlaylists demo_spotify = Inr demo_playlists \<and>
   discoveryRequest demo_spotify [] =
     Inr [\<lparr> dd_externalDeviceId = ''d1|spotify:playlist:a'',
            dd_friendlyName = ''Playlist A on'' @ CHR 0xA0 # ''Mobile Web Player'',
            dd_deviceHandlerType = ''0284c595-fed5-4b00-9e02-6e85bb3b32fb'',
            dd_manufacturerName = Some ''Spotify'', dd_modelName = Some ''Computer'' \<rparr>,
          \<lparr> dd_externalDeviceId = ''d1|spotify:playlist:b'',
            dd_friendlyName = ''Playlist B on'' @ CHR 0xA0 # ''Mobile Web Player'',
            dd_deviceHandlerType = ''0284c595-fed5-4b00-9e02-6e85bb3b32fb'',
            dd_manufacturerName = Some ''Spotify'', dd_modelName = Some ''Computer'' \<rparr>]"
proof -
  let ?sp2 = "demo_spotify \<lparr> getMyCurrentPlaybackState := Inr \<lparr> is_playing = None \<rparr>,
                             pause := (\<lambda>dev. Inr ()) \<rparr>"
  have d: "getMyDevices demo_spotify = getMyDevices ?sp2" by simp
  have p: "getUserPlaylists demo_spotify = getUserPlaylists ?sp2" by simp
  have d1: "getMyDevices demo_spotify = Inr demo_devices" by (simp add: demo_spotify_def)
  have p1: "getUserPlaylists demo_spotify = Inr demo_playlists" by (simp add: demo_spotify_def)
  from C9_discovery_idempotent [OF d p] d1 p1
  have same: "discoveryRequest demo_spotify [] = discoveryRequest ?sp2 []"
    and "discoveryRequest demo_spotify [] =
                 Inr (map (\<lambda>pd.
                        \<lparr> dd_externalDeviceId = playlistDeviceIdToExternalId (pd_id pd),
                          dd_friendlyName = pd_name pd,
                          dd_deviceHandlerType = ''0284c595-fed5-4b00-9e02-6e85bb3b32fb'',
                          dd_manufacturerName = Some ''Spotify'',
                          dd_modelName = Some (pd_model pd) \<rparr>)
                      (concat (map (\<lambda>d. map (playlistDevice d) demo_playlists) (selected demo_devices))))"
    by blast+
  then have "discoveryRequest demo_spotify [] =
     Inr [\<lparr> dd_externalDeviceId = ''d1|spotify:playlist:a'',
            dd_friendlyName = ''Playlist A on'' @ CHR 0xA0 # ''Mobile Web Player'',
            dd_deviceHandlerType = ''0284c595-fed5-4b00-9e02-6e85bb3b32fb'',
            dd_manufacturerName = Some ''Spotify'', dd_modelName = Some ''Computer'' \<rparr>,
          \<lparr> dd_externalDeviceId = ''d1|spotify:playlist:b'',
            dd_friendlyName = ''Playlist B on'' @ CHR 0xA0 # ''Mobile Web Player'',
            dd_deviceHandlerType = ''0284c595-fed5-4b00-9e02-6e85bb3b32fb'',
            dd_manufacturerName = Some ''Spotify'', dd_modelName = Some ''Computer'' \<rparr>]"
    by (simp add: selected_demo demo_playlists_def playlistDevice_def
        playlistDeviceIdToExternalId_def interpolate_def)
  with d p same d1 p1 show ?thesis by (intro conjI)
qed

lemma commandRequest_rejects:
  assumes "d \<in> set ds" and "c \<in> set (commands d)" and "failing spotify d c"
  shows "\<exists>e. fst (commandRequest spotify pick ds []) = Some e"
proof -
  from assms have "fst (commandRequest spotify pick ds []) \<noteq> None"
    by (auto simp: commandRequest_resolves_iff)
  then show ?thesis by auto
qed

lemma rejected_commandTasks:
  assumes "(h, a, k) \<in> set (commandTasks pid h' c)" and "k (perform spotify a) = Inl e"
  shows "isPlay c \<and> play spotify (playlistUri pid) (deviceId pid) = Inl e"
  using assms
  by (auto simp: commandTasks_def commandBody_def isPlay_def perform_def
      split: if_splits sum.splits)

lemma rejected_deviceTasks:
  assumes "(h, a, k) \<in> set (deviceTasks i d)" and "k (perform spotify a) = Inl e"
  shows "\<exists>c \<in> set (commands d). isPlay c \<and>
           play spotify (playlistUri (externalIdToPlaylistDeviceId (externalDeviceId d)))
             (deviceId (externalIdToPlaylistDeviceId (externalDeviceId d))) = Inl e"
proof -
  from assms(1) obtain c where c: "c \<in> set (commands d)"
    and t: "(h, a, k) \<in> set (commandTasks (externalIdToPlaylistDeviceId (externalDeviceId d)) (i, 0) c)"
    by (auto simp: deviceTasks_def)
  from t assms(2) have "isPlay c \<and>
           play spotify (playlistUri (externalIdToPlaylistDeviceId (externalDeviceId d)))
             (deviceId (externalIdToPlaylistDeviceId (externalDeviceId d))) = Inl e"
    by (rule rejected_commandTasks)
  with c show ?thesis by blast
qed

lemma rejected_allTasks:
  assumes "(h, a, k) \<in> set (allTasks i ds)" and "k (perform spotify a) = Inl e"
  shows "\<exists>d \<in> set ds. \<exists>c \<in> set (commands d). isPlay c \<and>
           play spotify (playlistUri (externalIdToPlaylistDeviceId (externalDeviceId d)))
             (deviceId (externalIdToPlaylistDeviceId (externalDeviceId d))) = Inl e"
  using assms(1)
proof (induction ds arbitrary: i)
  case Nil
  then show ?case by simp
next
  case (Cons d ds)
  from Cons.prems consider "(h, a, k) \<in> set (deviceTasks i d)"
    | "(h, a, k) \<in> set (allTasks (Suc i) ds)" by auto
  then show ?case
  proof cases
    case 1
    from rejected_deviceTasks [OF this assms(2)] show ?thesis by simp
  next
    case 2
    from Cons.IH [OF this] show ?thesis by simp
  qed
qed

lemma commandRequest_rejected_by:
  assumes "fst (commandRequest spotify pick ds []) = Some e"
  shows "\<exists>d \<in> set ds. \<exists>c \<in> set (commands d). isPlay c \<and>
           play spotify (playlistUri (externalIdToPlaylistDeviceId (externalDeviceId d)))
             (deviceId (externalIdToPlaylistDeviceId (externalDeviceId d))) = Inl e"
proof -
  from assms have "fst (settle spotify pick 0 (allTasks 0 ds)
      \<lparr> calls = map (\<lambda>t. fst (snd t)) (allTasks 0 ds), response = map deviceEntry ds,
        console = [] \<rparr>) = Some e"
    by (simp add: commandRequest_eq)
  from settle_rejected_by [OF this] obtain h a k
    where "(h, a, k) \<in> set (allTasks 0 ds)" and "k (perform spotify a) = Inl e" by blast
  then show ?thesis by (rule rejected_allTasks)
qed

lemma promiseHandler_resolved:
  assumes "fst (commandRequest spotify pick ds []) = None"
  shows "promiseHandler spotify pick \<lparr> interactionType = CommandRequest, devices = ds \<rparr>
           = \<lparr> statusCode = 200,
               result_body = CommandResponse (response (snd (commandRequest spotify pick ds []))) \<rparr>"
  using assms
  by (cases "commandRequest spotify pick ds []") (simp add: promiseHandler_def lambda_def)

lemma decode_demo:
  "externalIdToPlaylistDeviceId ''dev1|ctx1'' = \<lparr> deviceId = Some ''dev1'', playlistUri = Some ''ctx1'' \<rparr>"
proof -
  have "CHR ''|'' \<notin> set ''dev1''" by simp
  from decode_present [OF this, of "''ctx1''"] show ?thesis by simp
qed

text \<open>
  Claim C4.  Take a \<open>play\<close> command of capability \<open>st.mediaPlayback\<close> in the
  request at position \<open>i\<close> of a batch, whose external id decodes to \<open>(t, q)\<close>.
  Its function issues the one call \<open>play\<close> with \<open>context_uri = q\<close> and
  \<open>device_id = t\<close>; it then adds the state \<open>playing\<close> when the call succeeds, and
  throws without adding a state when the call fails.  In the run of the batch, under
  every order of settling, the calls \<open>Play q t\<close> issued are as many as the
  \<open>play\<close> commands addressed to ids decoding to \<open>(t, q)\<close>; when the handler
  resolves, the component of entry \<open>i\<close> holds the state \<open>playing\<close>; when
  the call fails, the handler rejects, with the error of a failed \<open>play\<close> of the
  batch.  For the batch of this command alone the whole run is given.
\<close>

theorem C4_play:
  assumes "i < length ds" and "c \<in> set (commands (ds ! i))"
    and "capability c = ''st.mediaPlayback''" and "command c = ''play''"
    and "externalIdToPlaylistDeviceId (externalDeviceId (ds ! i))
           = \<lparr> deviceId = t, playlistUri = q \<rparr>"
  shows "(\<exists>k. commandBody \<lparr> deviceId = t, playlistUri = q \<rparr> c = Await (Play q t) k
            \<and> k (Inr ()) = Inr ([], [(''st.mediaPlayback'', ''playbackStatus'', ''playing'')])
            \<and> (\<forall>e. k (Inl e) = Inl e))
       \<and> count_list (calls (snd (commandRequest spotify pick ds []))) (Play q t)
           = sum_list (map (\<lambda>d. if externalIdToPlaylistDeviceId (externalDeviceId d)
                                      = \<lparr> deviceId = t, playlistUri = q \<rparr>
                                   then length (filter isPlay (commands d)) else 0) ds)
       \<and> (fst (commandRequest spotify pick ds []) = None \<longrightarrow>
             (''st.mediaPlayback'', ''playbackStatus'', ''playing'')
               \<in> set (statesAt (response (snd (commandRequest spotify pick ds []))) (i, 0)))
       \<and> (\<forall>e. play spotify q t = Inl e \<longrightarrow>
             (\<exists>e'. fst (commandRequest spotify pick ds []) = Some e'
                  \<and> (\<exists>d \<in> set ds. \<exists>c' \<in> set (commands d). isPlay c' \<and>
                        play spotify
                          (playlistUri (externalIdToPlaylistDeviceId (externalDeviceId d)))
                          (deviceId (externalIdToPlaylistDeviceId (externalDeviceId d)))
                        = Inl e'))
             \<and> commandRequest spotify pick
                 [\<lparr> externalDeviceId = externalDeviceId (ds ! i), commands = [c] \<rparr>] []
               = (Some e,
                  \<lparr> calls = [Play q t],
                    response =
                      [\<lparr> cd_externalDeviceId = externalDeviceId (ds ! i),
                         cd_components = [\<lparr> comp_name = ''main'', comp_states = [] \<rparr>] \<rparr>],
                    console = [] \<rparr>))
       \<and> (play spotify q t = Inr () \<longrightarrow>
             commandRequest spotify pick
                 [\<lparr> externalDeviceId = externalDeviceId (ds ! i), commands = [c] \<rparr>] []
               = (None,
                  \<lparr> calls = [Play q t],
                    response =
                      [\<lparr> cd_externalDeviceId = externalDeviceId (ds ! i),
                         cd_components =
                           [\<lparr> comp_name = ''main'',
                              comp_states =
                                [(''st.mediaPlayback'', ''playbackStatus'', ''playing'')] \<rparr>] \<rparr>],
                    console = [] \<rparr>))"
proof -
  let ?pid = "\<lparr> deviceId = t, playlistUri = q \<rparr>"
  let ?x = "externalDeviceId (ds ! i)"
  from commandBody_play [OF assms(3,4), of ?pid]
  obtain k where k: "commandBody ?pid c = Await (Play q t) k"
    and ok: "k (Inr ()) = Inr ([], [(''st.mediaPlayback'', ''playbackStatus'', ''playing'')])"
    and err: "\<And>e. k (Inl e) = Inl e"
    by auto
  have body: "\<exists>k. commandBody ?pid c = Await (Play q t) k
            \<and> k (Inr ()) = Inr ([], [(''st.mediaPlayback'', ''playbackStatus'', ''playing'')])
            \<and> (\<forall>e. k (Inl e) = Inl e)"
    using k ok err by blast
  have count: "count_list (calls (snd (commandRequest spotify pick ds []))) (Play q t)
           = sum_list (map (\<lambda>d. if externalIdToPlaylistDeviceId (externalDeviceId d) = ?pid
                                   then length (filter isPlay (commands d)) else 0) ds)"
    by (simp only: commandRequest_calls count_calls)
  have state: "(''st.mediaPlayback'', ''playbackStatus'', ''playing'')
               \<in> set (statesAt (response (snd (commandRequest spotify pick ds []))) (i, 0))"
    if "fst (commandRequest spotify pick ds []) = None"
  proof -
    from assms(3,4) have "(''st.mediaPlayback'', ''playbackStatus'', ''playing'') \<in> set (reported c)"
      by (simp add: reported_def)
    with assms(2) have "(''st.mediaPlayback'', ''playbackStatus'', ''playing'')
        \<in># mset (concat (map reported (commands (ds ! i))))" by auto
    then have "(''st.mediaPlayback'', ''playbackStatus'', ''playing'')
        \<in># mset (statesAt (response (snd (commandRequest spotify pick ds []))) (i, 0))"
      by (simp only: commandRequest_states [OF that assms(1)])
    then show ?thesis by simp
  qed
  have single: "commandRequest spotify pick [\<lparr> externalDeviceId = ?x, commands = [c] \<rparr>] [] =
           (case k (play spotify q t) of
              Inl e \<Rightarrow>
                (Some e,
                 \<lparr> calls = [Play q t],
                   response = [\<lparr> cd_externalDeviceId = ?x,
                                 cd_components = [\<lparr> comp_name = ''main'', comp_states = [] \<rparr>] \<rparr>],
                   console = [] \<rparr>)
            | Inr r \<Rightarrow>
                (None,
                 \<lparr> calls = [Play q t],
                   response = [\<lparr> cd_externalDeviceId = ?x,
                                 cd_components = [\<lparr> comp_name = ''main'', comp_states = snd r \<rparr>] \<rparr>],
                   console = fst r \<rparr>))"
    using commandRequest_single [of ?x c "Play q t" k spotify pick] k assms(5)
    by (simp add: perform_def)
  have fail: "(\<exists>e'. fst (commandRequest spotify pick ds []) = Some e'
                  \<and> (\<exists>d \<in> set ds. \<exists>c' \<in> set (commands d). isPlay c' \<and>
                        play spotify
                          (playlistUri (externalIdToPlaylistDeviceId (externalDeviceId d)))
                          (deviceId (externalIdToPlaylistDeviceId (externalDeviceId d)))
                        = Inl e'))
             \<and> commandRequest spotify pick [\<lparr> externalDeviceId = ?x, commands = [c] \<rparr>] []
               = (Some e,
                  \<lparr> calls = [Play q t],
                    response =
                      [\<lparr> cd_externalDeviceId = ?x,
                         cd_components = [\<lparr> comp_name = ''main'', comp_states = [] \<rparr>] \<rparr>],
                    console = [] \<rparr>)"
    if e: "play spotify q t = Inl e" for e
  proof -
    from assms(1) have "ds ! i \<in> set ds" by simp
    moreover from assms(3,4,5) e have "failing spotify (ds ! i) c" by (simp add: failing_def)
    ultimately obtain e' where "fst (commandRequest spotify pick ds []) = Some e'"
      using commandRequest_rejects [OF _ assms(2)] by blast
    with commandRequest_rejected_by [OF this] single e err show ?thesis by simp
  qed
  have succeed: "commandRequest spotify pick [\<lparr> externalDeviceId = ?x, commands = [c] \<rparr>] []
               = (None,
                  \<lparr> calls = [Play q t],
                    response =
                      [\<lparr> cd_externalDeviceId = ?x,
                         cd_components =
                           [\<lparr> comp_name = ''main'',
                              comp_states =
                                [(''st.mediaPlayback'', ''playbackStatus'', ''playing'')] \<rparr>] \<rparr>],
                    console = [] \<rparr>)"
    if "play spotify q t = Inr ()"
    using single that ok by simp
  from body count state fail succeed show ?thesis by blast
qed

theorem C4_play_witness:
  "(0::nat) < length [\<lparr> externalDeviceId = ''dev1|ctx1'',
                       commands = [\<lparr> capability = ''st.mediaPlayback'', command = ''play'' \<rparr>] \<rparr>] \<and>
   play demo_spotify (Some ''ctx1'') (Some ''dev1'') = Inl (Error ''play failed'') \<and>
   commandRequest demo_spotify (\<lambda>n. 0)
     [\<lparr> externalDeviceId = ''dev1|ctx1'',
        commands = [\<lparr> capability = ''st.mediaPlayback'', command = ''play'' \<rparr>] \<rparr>] []
   = (Some (Error ''play failed''),
      \<lparr> calls = [Play (Some ''ctx1'') (Some ''dev1'')],
        response = [\<lparr> cd_externalDeviceId = ''dev1|ctx1'',
                      cd_components = [\<lparr> comp_name = ''main'', comp_states = [] \<rparr>] \<rparr>],
        console = [] \<rparr>) \<and>
   play (demo_spotify \<lparr> play := (\<lambda>ctx dev. Inr ()) \<rparr>) (Some ''ctx1'') (Some ''dev1'') = Inr () \<and>
   commandRequest (demo_spotify \<lparr> play := (\<lambda>ctx dev. Inr ()) \<rparr>) (\<lambda>n. 0)
     [\<lparr> externalDeviceId = ''dev1|ctx1'',
        commands = [\<lparr> capability = ''st.mediaPlayback'', command = ''play'' \<rparr>] \<rparr>] []
   = (None,
      \<lparr> calls = [Play (Some ''ctx1'') (Some ''dev1'')],
        response = [\<lparr> cd_externalDeviceId = ''dev1|ctx1'',
                      cd_components =
                        [\<lparr> comp_name = ''main'',
                           comp_states = [(''st.mediaPlayback'', ''playbackStatus'', ''playing'')] \<rparr>] \<rparr>],
        console = [] \<rparr>) \<and>
   (''st.mediaPlayback'', ''playbackStatus'', ''playing'')
     \<in> set (statesAt (response (snd (commandRequest (demo_spotify \<lparr> play := (\<lambda>ctx dev. Inr ()) \<rparr>) (\<lambda>n. 0)
          [\<lparr> externalDeviceId = ''dev1|ctx1'',
             commands = [\<lparr> capability = ''st.mediaPlayback'', command = ''play'' \<rparr>] \<rparr>] []))) (0, 0))"
proof -
  let ?c = "\<lparr> capability = ''st.mediaPlayback'', command = ''play'' \<rparr>"
  let ?ds = "[\<lparr> externalDeviceId = ''dev1|ctx1'', commands = [?c] \<rparr>]"
  let ?ok = "demo_spotify \<lparr> play := (\<lambda>ctx dev. Inr ()) \<rparr>"
  have i: "(0::nat) < length ?ds" by simp
  have c: "?c \<in> set (commands (?ds ! 0))" by simp
  have cap: "capability ?c = ''st.mediaPlayback''" and cmd: "command ?c = ''play''" by simp_all
  have dec: "externalIdToPlaylistDeviceId (externalDeviceId (?ds ! 0))
               = \<lparr> deviceId = Some ''dev1'', playlistUri = Some ''ctx1'' \<rparr>"
    by (simp add: decode_demo)
  have bad: "play demo_spotify (Some ''ctx1'') (Some ''dev1'') = Inl (Error ''play failed'')"
    by (simp add: demo_spotify_def)
  have good: "play ?ok (Some ''ctx1'') (Some ''dev1'') = Inr ()" by simp
  note fails = C4_play [OF i c cap cmd dec, of demo_spotify "\<lambda>n. 0"]
  note works = C4_play [OF i c cap cmd dec, of ?ok "\<lambda>n. 0"]
  from fails bad have 1: "commandRequest demo_spotify (\<lambda>n. 0) ?ds []
      = (Some (Error ''play failed''),
         \<lparr> calls = [Play (Some ''ctx1'') (Some ''dev1'')],
           response = [\<lparr> cd_externalDeviceId = ''dev1|ctx1'',
                         cd_components = [\<lparr> comp_name = ''main'', comp_states = [] \<rparr>] \<rparr>],
           console = [] \<rparr>)"
    by simp
  from works good have 2: "commandRequest ?ok (\<lambda>n. 0) ?ds []
      = (None,
         \<lparr> calls = [Play (Some ''ctx1'') (Some ''dev1'')],
           response = [\<lparr> cd_externalDeviceId = ''dev1|ctx1'',
                      cd_components =
                        [\<lparr> comp_name = ''main'',
                           comp_states = [(''st.mediaPlayback'', ''playbackStatus'', ''playing'')] \<rparr>] \<rparr>],
           console = [] \<rparr>)"
    by simp
  then have "fst (commandRequest ?ok (\<lambda>n. 0) ?ds []) = None" by simp
  with works have 3: "(''st.mediaPlayback'', ''playbackStatus'', ''playing'')
     \<in> set (statesAt (response (snd (commandRequest ?ok (\<lambda>n. 0) ?ds []))) (0, 0))"
    by blast
  from i bad 1 good 2 3 show ?thesis by (intro conjI)
qed

text \<open>
  Claim C5.  Take a \<open>pause\<close>, \<open>fastForward\<close> or \<open>rewind\<close> command of
  capability \<open>st.mediaPlayback\<close> in the request at position \<open>i\<close> of a batch.
  Its function issues its provider call and, whatever the call answers, does not throw
  and adds its optimistic state: \<open>paused\<close> for \<open>pause\<close>, \<open>playing\<close> for the
  other two.  When no \<open>play\<close> command of the batch fails, then under every order
  of settling the handler resolves, the component of entry \<open>i\<close> holds that state
  and the dispatcher answers with status 200.  For the request \<open>dev1|ctx1\<close> with
  the single command \<open>pause\<close>, any provider, one whose \<open>pause\<close> fails included,
  gives status 200 and the entry \<open>dev1|ctx1\<close> with component \<open>main\<close> and state
  \<open>paused\<close>.
\<close>

theorem C5_tolerated:
  assumes "i < length ds" and "c \<in> set (commands (ds ! i))"
    and "capability c = ''st.mediaPlayback''"
    and "command c = ''pause'' \<or> command c = ''fastForward'' \<or> command c = ''rewind''"
  shows "(\<exists>k. commandBody pid c =
               Await (if command c = ''pause'' then Pause (deviceId pid)
                      else if command c = ''fastForward'' then SkipToNext else SkipToPrevious) k
            \<and> (\<forall>r. \<exists>lines. k r =
                  Inr (lines, [(''st.mediaPlayback'', ''playbackStatus'',
                                if command c = ''pause'' then ''paused'' else ''playing'')])))
       \<and> ((\<forall>d \<in> set ds. \<forall>c' \<in> set (commands d). \<not> failing spotify d c') \<longrightarrow>
             fst (commandRequest spotify pick ds []) = None
             \<and> (''st.mediaPlayback'', ''playbackStatus'',
                 if command c = ''pause'' then ''paused'' else ''playing'')
                  \<in> set (statesAt (response (snd (commandRequest spotify pick ds []))) (i, 0))
             \<and> statusCode (promiseHandler spotify pick
                             \<lparr> interactionType = CommandRequest, devices = ds \<rparr>) = 200)
       \<and> promiseHandler spotify pick
            \<lparr> interactionType = CommandRequest,
              devices = [\<lparr> externalDeviceId = ''dev1|ctx1'',
                           commands = [\<lparr> capability = ''st.mediaPlayback'',
                                         command = ''pause'' \<rparr>] \<rparr>] \<rparr>
          = \<lparr> statusCode = 200,
              result_body = CommandResponse
                [\<lparr> cd_externalDeviceId = ''dev1|ctx1'',
                   cd_components =
                     [\<lparr> comp_name = ''main'',
                        comp_states = [(''st.mediaPlayback'', ''playbackStatus'', ''paused'')] \<rparr>] \<rparr>] \<rparr>"
proof -
  let ?s = "(''st.mediaPlayback'', ''playbackStatus'',
             if command c = ''pause'' then ''paused'' else ''playing'')"
  have body: "\<exists>k. commandBody pid c =
               Await (if command c = ''pause'' then Pause (deviceId pid)
                      else if command c = ''fastForward'' then SkipToNext else SkipToPrevious) k
            \<and> (\<forall>r. \<exists>lines. k r = Inr (lines, [?s]))"
    using assms(3,4) by (auto simp: commandBody_def)
  have batch: "fst (commandRequest spotify pick ds []) = None
             \<and> ?s \<in> set (statesAt (response (snd (commandRequest spotify pick ds []))) (i, 0))
             \<and> statusCode (promiseHandler spotify pick
                             \<lparr> interactionType = CommandRequest, devices = ds \<rparr>) = 200"
    if ok: "\<forall>d \<in> set ds. \<forall>c' \<in> set (commands d). \<not> failing spotify d c'"
  proof -
    from ok have none: "fst (commandRequest spotify pick ds []) = None"
      by (simp add: commandRequest_resolves_iff)
    from assms(3,4) have "?s \<in> set (reported c)" by (auto simp: reported_def)
    with assms(2) have "?s \<in># mset (concat (map reported (commands (ds ! i))))" by auto
    then have "?s \<in># mset (statesAt (response (snd (commandRequest spotify pick ds []))) (i, 0))"
      by (simp only: commandRequest_states [OF none assms(1)])
    then have "?s \<in> set (statesAt (response (snd (commandRequest spotify pick ds []))) (i, 0))"
      by simp
    with none promiseHandler_resolved [OF none] show ?thesis by simp
  qed
  let ?p = "\<lparr> capability = ''st.mediaPlayback'', command = ''pause'' \<rparr>"
  have "\<exists>lines. commandRequest spotify pick
             [\<lparr> externalDeviceId = ''dev1|ctx1'', commands = [?p] \<rparr>] []
          = (None,
             \<lparr> calls = [Pause (Some ''dev1'')],
               response =
                 [\<lparr> cd_externalDeviceId = ''dev1|ctx1'',
                    cd_components =
                      [\<lparr> comp_name = ''main'',
                         comp_states = [(''st.mediaPlayback'', ''playbackStatus'', ''paused'')] \<rparr>] \<rparr>],
               console = lines \<rparr>)"
  proof -
    have "commandBody (externalIdToPlaylistDeviceId ''dev1|ctx1'') ?p =
            Await (Pause (Some ''dev1''))
              (\<lambda>r. Inr (case r of Inl e \<Rightarrow> [''Spotify pause failed''] | Inr _ \<Rightarrow> [],
                         [(''st.mediaPlayback'', ''playbackStatus'', ''paused'')]))"
      by (simp add: commandBody_def decode_demo)
    from commandRequest_single [OF this, of spotify pick] show ?thesis by simp
  qed
  then have e2e: "promiseHandler spotify pick
            \<lparr> interactionType = CommandRequest,
              devices = [\<lparr> externalDeviceId = ''dev1|ctx1'', commands = [?p] \<rparr>] \<rparr>
          = \<lparr> statusCode = 200,
              result_body = CommandResponse
                [\<lparr> cd_externalDeviceId = ''dev1|ctx1'',
                   cd_components =
                     [\<lparr> comp_name = ''main'',
                        comp_states = [(''st.mediaPlayback'', ''playbackStatus'', ''paused'')] \<rparr>] \<rparr>] \<rparr>"
    by (auto simp: promiseHandler_def lambda_def)
  from body batch e2e show ?thesis by blast
qed

theorem C5_tolerated_witness:
  "(0::nat) < length [\<lparr> externalDeviceId = ''dev1|ctx1'',
                       commands = [\<lparr> capability = ''st.mediaPlayback'', command = ''pause'' \<rparr>] \<rparr>] \<and>
   pause demo_spotify (Some ''dev1'') = Inl (Error ''pause failed'') \<and>
   \<not> failing demo_spotify
       \<lparr> externalDeviceId = ''dev1|ctx1'',
         commands = [\<lparr> capability = ''st.mediaPlayback'', command = ''pause'' \<rparr>] \<rparr>
       \<lparr> capability = ''st.mediaPlayback'', command = ''pause'' \<rparr> \<and>
   fst (commandRequest demo_spotify (\<lambda>n. 0)
          [\<lparr> externalDeviceId = ''dev1|ctx1'',
             commands = [\<lparr> capability = ''st.mediaPlayback'', command = ''pause'' \<rparr>] \<rparr>] []) = None \<and>
   (''st.mediaPlayback'', ''playbackStatus'', ''paused'')
     \<in> set (statesAt (response (snd (commandRequest demo_spotify (\<lambda>n. 0)
          [\<lparr> externalDeviceId = ''dev1|ctx1'',
             commands = [\<lparr> capability = ''st.mediaPlayback'', command = ''pause'' \<rparr>] \<rparr>] []))) (0, 0)) \<and>
   promiseHandler demo_spotify (\<lambda>n. 0)
     \<lparr> interactionType = CommandRequest,
       devices = [\<lparr> externalDeviceId = ''dev1|ctx1'',
                    commands = [\<lparr> capability = ''st.mediaPlayback'', command = ''pause'' \<rparr>] \<rparr>] \<rparr>
   = \<lparr> statusCode = 200,
       result_body = CommandResponse
         [\<lparr> cd_externalDeviceId = ''dev1|ctx1'',
            cd_components =
              [\<lparr> comp_name = ''main'',
                 comp_states = [(''st.mediaPlayback'', ''playbackStatus'', ''paused'')] \<rparr>] \<rparr>] \<rparr>"
proof -
  let ?c = "\<lparr> capability = ''st.mediaPlayback'', command = ''pause'' \<rparr>"
  let ?ds = "[\<lparr> externalDeviceId = ''dev1|ctx1'', commands = [?c] \<rparr>]"
  have i: "(0::nat) < length ?ds" by simp
  have c: "?c \<in> set (commands (?ds ! 0))" by simp
  have cap: "capability ?c = ''st.mediaPlayback''" by simp
  have cmd: "command ?c = ''pause'' \<or> command ?c = ''fastForward'' \<or> command ?c = ''rewind''"
    by simp
  have bad: "pause demo_spotify (Some ''dev1'') = Inl (Error ''pause failed'')"
    by (simp add: demo_spotify_def)
  have ok: "\<forall>d \<in> set ?ds. \<forall>c' \<in> set (commands d). \<not> failing demo_spotify d c'"
    by (simp add: failing_def)
  note inst = C5_tolerated [OF i c cap cmd, of "externalIdToPlaylistDeviceId ''dev1|ctx1''"
      demo_spotify "\<lambda>n. 0"]
  from inst ok have 1: "fst (commandRequest demo_spotify (\<lambda>n. 0) ?ds []) = None"
    and 2: "(''st.mediaPlayback'', ''playbackStatus'', ''paused'')
     \<in> set (statesAt (response (snd (commandRequest demo_spotify (\<lambda>n. 0) ?ds []))) (0, 0))"
    by simp_all
  from inst have 3: "promiseHandler demo_spotify (\<lambda>n. 0)
     \<lparr> interactionType = CommandRequest, devices = ?ds \<rparr>
   = \<lparr> statusCode = 200,
       result_body = CommandResponse
         [\<lparr> cd_externalDeviceId = ''dev1|ctx1'',
            cd_components =
              [\<lparr> comp_name = ''main'',
                 comp_states = [(''st.mediaPlayback'', ''playbackStatus'', ''paused'')] \<rparr>] \<rparr>] \<rparr>"
    by blast
  from ok have nf: "\<not> failing demo_spotify \<lparr> externalDeviceId = ''dev1|ctx1'', commands = [?c] \<rparr> ?c"
    by simp
  from i bad nf 1 2 3 show ?thesis by (intro conjI)
qed

text \<open>
  Claim C7.  For every batch, provider and order of settling, also when the handler
  rejects, the response holds one entry per device request, in request order, under
  the request's external id and with the one component \<open>main\<close>.  A command that
  matches no row of the dispatch table returns at once, without a call, a state or an
  exception: removing such commands from a batch does not change the run, and a
  batch of such commands only resolves with entries that carry no state.
\<close>

theorem C7_one_entry:
  "map cd_externalDeviceId (response (snd (commandRequest spotify pick ds [])))
     = map externalDeviceId ds
   \<and> (\<forall>e \<in> set (response (snd (commandRequest spotify pick ds []))).
         map comp_name (cd_components e) = [''main''])
   \<and> (\<not> known c \<longrightarrow> commandBody pid c = Return)
   \<and> commandRequest spotify pick
        (map (\<lambda>d. d \<lparr> commands := filter known (commands d) \<rparr>) ds) []
      = commandRequest spotify pick ds []
   \<and> ((\<forall>d \<in> set ds. \<forall>c \<in> set (commands d). \<not> known c) \<longrightarrow>
         commandRequest spotify pick ds []
           = (None,
              \<lparr> calls = [],
                response = map (\<lambda>d. \<lparr> cd_externalDeviceId = externalDeviceId d,
                                      cd_components = [\<lparr> comp_name = ''main'',
                                                         comp_states = [] \<rparr>] \<rparr>) ds,
                console = [] \<rparr>))"
proof -
  let ?resp = "response (snd (commandRequest spotify pick ds []))"
  have sh: "shape ?resp = map (\<lambda>d. (externalDeviceId d, [''main''])) ds"
    by (rule commandRequest_shape)
  have "map cd_externalDeviceId ?resp = map fst (shape ?resp)"
    by (simp add: shape_def comp_def)
  then have ids: "map cd_externalDeviceId ?resp = map externalDeviceId ds"
    unfolding sh by (simp add: comp_def)
  have comps: "map comp_name (cd_components e) = [''main'']" if "e \<in> set ?resp" for e
  proof -
    from that have "(cd_externalDeviceId e, map comp_name (cd_components e)) \<in> set (shape ?resp)"
      by (auto simp: shape_def)
    then show ?thesis unfolding sh by auto
  qed
  have unknown: "commandBody pid c = Return" if "\<not> known c"
    using that by (auto simp: commandBody_def known_def)
  have only: "commandRequest spotify pick ds []
           = (None,
              \<lparr> calls = [],
                response = map (\<lambda>d. \<lparr> cd_externalDeviceId = externalDeviceId d,
                                      cd_components = [\<lparr> comp_name = ''main'',
                                                         comp_states = [] \<rparr>] \<rparr>) ds,
                console = [] \<rparr>)"
    if none: "\<forall>d \<in> set ds. \<forall>c \<in> set (commands d). \<not> known c"
  proof -
    have "allTasks i ds = []" for i
      using none
    proof (induction ds arbitrary: i)
      case Nil
      show ?case by simp
    next
      case (Cons d ds)
      then have "deviceTasks i d = []"
        by (simp add: deviceTasks_def commandTasks_unknown)
      with Cons show ?case by simp
    qed
    then show ?thesis
      by (simp add: commandRequest_eq settle_Nil deviceEntry_def)
  qed
  from ids comps unknown only commandRequest_known [of spotify pick ds] show ?thesis by blast
qed

theorem C7_one_entry_witness:
  "\<not> known \<lparr> capability = ''st.switch'', command = ''on'' \<rparr> \<and>
   commandBody (externalIdToPlaylistDeviceId ''dev1|ctx1'')
     \<lparr> capability = ''st.switch'', command = ''on'' \<rparr> = Return \<and>
   \<not> known \<lparr> capability = ''st.mediaPlayback'', command = ''stop'' \<rparr> \<and>
   commandRequest demo_spotify (\<lambda>n. 0)
     [\<lparr> externalDeviceId = ''dev1|ctx1'',
        commands = [\<lparr> capability = ''st.switch'', command = ''on'' \<rparr>,
                    \<lparr> capability = ''st.mediaPlayback'', command = ''stop'' \<rparr>] \<rparr>] []
   = (None,
      \<lparr> calls = [],
        response = [\<lparr> cd_externalDeviceId = ''dev1|ctx1'',
                      cd_components = [\<lparr> comp_name = ''main'', comp_states = [] \<rparr>] \<rparr>],
        console = [] \<rparr>)"
proof -
  let ?c = "\<lparr> capability = ''st.switch'', command = ''on'' \<rparr>"
  let ?ds = "[\<lparr> externalDeviceId = ''dev1|ctx1'',
                commands = [?c, \<lparr> capability = ''st.mediaPlayback'', command = ''stop'' \<rparr>] \<rparr>]"
  have u: "\<not> known ?c" by (simp add: known_def)
  have all: "\<forall>d \<in> set ?ds. \<forall>c \<in> set (commands d). \<not> known c" by (simp add: known_def)
  note inst = C7_one_entry [of demo_spotify "\<lambda>n. 0" ?ds ?c
      "externalIdToPlaylistDeviceId ''dev1|ctx1''"]
  from inst u have 1: "commandBody (externalIdToPlaylistDeviceId ''dev1|ctx1'') ?c = Return"
    by blast
  from inst all have 2: "commandRequest demo_spotify (\<lambda>n. 0) ?ds []
   = (None,
      \<lparr> calls = [],
        response = [\<lparr> cd_externalDeviceId = ''dev1|ctx1'',
                      cd_components = [\<lparr> comp_name = ''main'', comp_states = [] \<rparr>] \<rparr>],
        console = [] \<rparr>)"
    by simp
  have u': "\<not> known \<lparr> capability = ''st.mediaPlayback'', command = ''stop'' \<rparr>"
    by (simp add: known_def)
  from u 1 u' 2 show ?thesis by (intro conjI)
qed

end
